theory Spec2Isabelle
  imports Main "HOL-Library.Word" "HOL-Library.Stream"
begin

unbundle bit_operations_syntax

section \<open>The hardware the driver talks to\<close>

text \<open>
  \<^verbatim>\<open>iecserial.cpp\<close> drives five open-collector lines through the AVR registers
  \<^verbatim>\<open>PORTD\<close> and \<^verbatim>\<open>DDRD\<close>, reads the pin levels from \<^verbatim>\<open>PIND\<close>, reads the clock with
  \<^verbatim>\<open>micros()\<close> and waits with \<^verbatim>\<open>delayMicroseconds()\<close>.

  The registers written are fields of the state. What the outside world answers is an
  input of the model: \<open>pind_in\<close> is the sequence of values that successive reads of
  \<^verbatim>\<open>PIND\<close> return, \<open>micros_in\<close> the sequence of values that successive calls of
  \<^verbatim>\<open>micros()\<close> return. Both are infinite streams, so a register read always returns,
  and any behaviour of the bus and of the clock is some pair of streams.
  \<open>pind_reads\<close> and \<open>micros_reads\<close> count the reads made so far, and \<open>trace\<close>
  lists, in order, the line operations and delays performed so far.
\<close>

datatype event =
    LineAssert "8 word"
  | LineRelease "8 word"
  | DelayUs nat

record IecSerial =
  PORTD :: "8 word"
  DDRD :: "8 word"
  pind_in :: "8 word stream"
  pind_reads :: nat
  micros_in :: "32 word stream"
  micros_reads :: nat
  trace :: "event list"
  srqBit :: "8 word"
  rstBit :: "8 word"
  clkBit :: "8 word"
  dioBit :: "8 word"
  atnBit :: "8 word"
  m_status :: "8 word"

text \<open>The constants of \<^verbatim>\<open>iecserial.h\<close>.\<close>

definition CMD_LISTEN :: "8 word" where "CMD_LISTEN = 0x20"
definition CMD_TALK :: "8 word" where "CMD_TALK = 0x40"
definition CMD_UNTALK :: "8 word" where "CMD_UNTALK = 0x5F"
definition CMD_UNLISTEN :: "8 word" where "CMD_UNLISTEN = 0x3F"
definition CMD_SECONDARY :: "8 word" where "CMD_SECONDARY = 0x60"

definition STATUS_OK :: "8 word" where "STATUS_OK = 0"
definition STATUS_TIMEOUT :: "8 word" where "STATUS_TIMEOUT = 1"
definition STATUS_FRAMMING_ERROR :: "8 word" where "STATUS_FRAMMING_ERROR = 4"
definition STATUS_NO_DEVICE :: "8 word" where "STATUS_NO_DEVICE = 0x80"

definition TIME_TAT :: "32 word" where "TIME_TAT = 1000"
definition TIME_TNE :: "32 word" where "TIME_TNE = 40"
definition TIME_TS :: "32 word" where "TIME_TS = 70"
definition TIME_TV :: "32 word" where "TIME_TV = 20"
definition TIME_TF :: "32 word" where "TIME_TF = 1000"
definition TIME_TR :: "32 word" where "TIME_TR = 20"
definition TIME_TBB :: "32 word" where "TIME_TBB = 100"
definition TIME_TYE :: "32 word" where "TIME_TYE = 250"
definition TIME_TEI :: "32 word" where "TIME_TEI = 500"
definition TIME_TRY :: "32 word" where "TIME_TRY = 30"
definition TIME_TTK :: "32 word" where "TIME_TTK = 30"
definition TIME_TDC :: "32 word" where "TIME_TDC = 30"
definition TIME_TDA :: "32 word" where "TIME_TDA = 100"

subsection \<open>Register access, clock and delay\<close>

definition read_PIND :: "IecSerial \<Rightarrow> 8 word \<times> IecSerial" where
  "read_PIND s =
     (shd (pind_in s), s\<lparr>pind_in := stl (pind_in s), pind_reads := Suc (pind_reads s)\<rparr>)"

definition micros :: "IecSerial \<Rightarrow> 32 word \<times> IecSerial" where
  "micros s =
     (shd (micros_in s), s\<lparr>micros_in := stl (micros_in s), micros_reads := Suc (micros_reads s)\<rparr>)"

definition delayMicroseconds :: "32 word \<Rightarrow> IecSerial \<Rightarrow> IecSerial" where
  "delayMicroseconds us s = s\<lparr>trace := trace s @ [DelayUs (unat us)]\<rparr>"

definition Status :: "IecSerial \<Rightarrow> 8 word" where
  "Status s = m_status s"

definition isOk :: "IecSerial \<Rightarrow> bool" where
  "isOk s \<longleftrightarrow> m_status s = STATUS_OK"

section \<open>Line driver\<close>

text \<open>\<^verbatim>\<open>PORTD &= ~pins; DDRD |= pins;\<close>\<close>

definition Assert :: "8 word \<Rightarrow> IecSerial \<Rightarrow> IecSerial" where
  "Assert pins s =
     s\<lparr>PORTD := PORTD s AND NOT pins, DDRD := DDRD s OR pins,
       trace := trace s @ [LineAssert pins]\<rparr>"

text \<open>\<^verbatim>\<open>DDRD &= ~pins; PORTD |= pins;\<close>\<close>

definition Release :: "8 word \<Rightarrow> IecSerial \<Rightarrow> IecSerial" where
  "Release pins s =
     s\<lparr>DDRD := DDRD s AND NOT pins, PORTD := PORTD s OR pins,
       trace := trace s @ [LineRelease pins]\<rparr>"

definition all_lines :: "IecSerial \<Rightarrow> 8 word" where
  "all_lines s = srqBit s OR rstBit s OR clkBit s OR dioBit s OR atnBit s"

definition ReleaseAll :: "IecSerial \<Rightarrow> IecSerial" where
  "ReleaseAll s = Release (all_lines s) s"

text \<open>\<^verbatim>\<open>return ((PIND & pins) == 0);\<close> and \<^verbatim>\<open>return ((PIND & pins) != 0);\<close>\<close>

definition isAsserted :: "8 word \<Rightarrow> IecSerial \<Rightarrow> bool \<times> IecSerial" where
  "isAsserted pins s = (case read_PIND s of (v, s') \<Rightarrow> ((v AND pins) = 0, s'))"

definition isReleased :: "8 word \<Rightarrow> IecSerial \<Rightarrow> bool \<times> IecSerial" where
  "isReleased pins s = (case read_PIND s of (v, s') \<Rightarrow> ((v AND pins) \<noteq> 0, s'))"

text \<open>
  The constructor: the bit masks are \<^verbatim>\<open>1 << pin\<close> stored in a \<^verbatim>\<open>uint8_t\<close>, the status
  is Ok and all lines are released. Its argument \<open>hw\<close> is the hardware the object
  is bound to.
\<close>

definition IecSerial_new ::
  "nat \<Rightarrow> nat \<Rightarrow> nat \<Rightarrow> nat \<Rightarrow> nat \<Rightarrow> IecSerial \<Rightarrow> IecSerial" where
  "IecSerial_new srqPin atnPin clkPin dioPin rstPin hw =
     ReleaseAll (hw\<lparr>srqBit := push_bit srqPin 1, atnBit := push_bit atnPin 1,
                    clkBit := push_bit clkPin 1, dioBit := push_bit dioPin 1,
                    rstBit := push_bit rstPin 1, m_status := STATUS_OK\<rparr>)"

section \<open>Timing and wait primitives\<close>

text \<open>
  The polling loops run until the line changes or the clock passes the deadline. With a
  line that never changes and a clock that never advances they do not return: each is a
  partial function, and not returning is \<open>None\<close>.
\<close>

partial_function (option) WaitAssertionOrTimeout_loop ::
  "8 word \<Rightarrow> 32 word \<Rightarrow> 32 word \<Rightarrow> IecSerial \<Rightarrow> (bool \<times> IecSerial) option" where
  "WaitAssertionOrTimeout_loop pins timeout initialTime s =
     (case isReleased pins s of (released, s1) \<Rightarrow>
        if released then
          (case micros s1 of (now, s2) \<Rightarrow>
             if now - initialTime > timeout
             then Some (True, s2\<lparr>m_status := STATUS_TIMEOUT\<rparr>)
             else WaitAssertionOrTimeout_loop pins timeout initialTime s2)
        else Some (False, s1))"

definition WaitAssertionOrTimeout ::
  "8 word \<Rightarrow> 32 word \<Rightarrow> IecSerial \<Rightarrow> (bool \<times> IecSerial) option" where
  "WaitAssertionOrTimeout pins timeout s =
     (case micros s of (initialTime, s0) \<Rightarrow>
        WaitAssertionOrTimeout_loop pins timeout initialTime s0)"

partial_function (option) WaitAssertion :: "8 word \<Rightarrow> IecSerial \<Rightarrow> IecSerial option" where
  "WaitAssertion pins s =
     (case isReleased pins s of (released, s1) \<Rightarrow>
        if released then WaitAssertion pins s1 else Some s1)"

partial_function (option) WaitReleaseOrTimeout_loop ::
  "8 word \<Rightarrow> 32 word \<Rightarrow> 32 word \<Rightarrow> IecSerial \<Rightarrow> (bool \<times> IecSerial) option" where
  "WaitReleaseOrTimeout_loop pins timeout initialTime s =
     (case isAsserted pins s of (asserted, s1) \<Rightarrow>
        if asserted then
          (case micros s1 of (now, s2) \<Rightarrow>
             if now - initialTime > timeout
             then Some (True, s2\<lparr>m_status := STATUS_TIMEOUT\<rparr>)
             else WaitReleaseOrTimeout_loop pins timeout initialTime s2)
        else Some (False, s1))"

definition WaitReleaseOrTimeout ::
  "8 word \<Rightarrow> 32 word \<Rightarrow> IecSerial \<Rightarrow> (bool \<times> IecSerial) option" where
  "WaitReleaseOrTimeout pins timeout s =
     (case micros s of (initialTime, s0) \<Rightarrow>
        WaitReleaseOrTimeout_loop pins timeout initialTime s0)"

partial_function (option) WaitRelease :: "8 word \<Rightarrow> IecSerial \<Rightarrow> IecSerial option" where
  "WaitRelease pins s =
     (case isAsserted pins s of (asserted, s1) \<Rightarrow>
        if asserted then WaitRelease pins s1 else Some s1)"

section \<open>Byte transmission and reception engines\<close>

text \<open>
  \<^verbatim>\<open>for (uint8_t bit = 0; bit < 8; bit++)\<close>: the loop counter and the byte being shifted
  are the arguments of the recursion.
\<close>

function SendBits_loop :: "nat \<Rightarrow> 8 word \<Rightarrow> IecSerial \<Rightarrow> IecSerial" where
  "SendBits_loop bitno data s =
     (if bitno < 8 then
        let s = Assert (clkBit s) s;
            s = delayMicroseconds (TIME_TS div 2) s;
            s = (if data AND 1 \<noteq> 0 then Release (dioBit s) s else Assert (dioBit s) s);
            data = drop_bit 1 data;
            s = delayMicroseconds (TIME_TS div 2) s;
            s = Release (clkBit s) s;
            s = delayMicroseconds TIME_TV s
        in SendBits_loop (bitno + 1) data s
      else s)"
  by pat_completeness auto
termination
  by (relation "measure (\<lambda>(bitno, data, s). 8 - bitno)") auto

definition SendBits :: "8 word \<Rightarrow> IecSerial \<Rightarrow> IecSerial" where
  "SendBits data s =
     (let s = SendBits_loop 0 data s;
          s = Release (dioBit s) s
      in Assert (clkBit s) s)"

function GetBits_loop :: "nat \<Rightarrow> 8 word \<Rightarrow> IecSerial \<Rightarrow> (8 word \<times> IecSerial) option" where
  "GetBits_loop bitno data s =
     (if bitno < 8 then
        let data = drop_bit 1 data
        in case WaitAssertion (clkBit s) s of
             None \<Rightarrow> None
           | Some s1 \<Rightarrow>
               (case WaitRelease (clkBit s1) s1 of
                  None \<Rightarrow> None
                | Some s2 \<Rightarrow>
                    (case isReleased (dioBit s2) s2 of (released, s3) \<Rightarrow>
                       GetBits_loop (bitno + 1) (if released then data OR 0x80 else data) s3))
      else Some (data, s))"
  by pat_completeness auto
termination
  by (relation "measure (\<lambda>(bitno, data, s). 8 - bitno)") auto

definition GetBits :: "IecSerial \<Rightarrow> (8 word \<times> IecSerial) option" where
  "GetBits s = GetBits_loop 0 0 s"

section \<open>Transaction and command engine\<close>

definition Send :: "8 word \<Rightarrow> bool \<Rightarrow> IecSerial \<Rightarrow> (bool \<times> IecSerial) option" where
  "Send data eoi s =
     (let s = s\<lparr>m_status := STATUS_OK\<rparr>;
          s = Release (clkBit s) s
      in case WaitRelease (dioBit s) s of
           None \<Rightarrow> None
         | Some s \<Rightarrow>
             (case (if eoi then
                      (case WaitAssertionOrTimeout (dioBit s) TIME_TYE s of
                         None \<Rightarrow> None
                       | Some (t1, s) \<Rightarrow>
                           (case WaitReleaseOrTimeout (dioBit s) TIME_TEI s of
                              None \<Rightarrow> None
                            | Some (t2, s) \<Rightarrow> Some (delayMicroseconds TIME_TRY s)))
                    else Some (delayMicroseconds TIME_TNE s)) of
                None \<Rightarrow> None
              | Some s \<Rightarrow>
                  (let s = SendBits data s
                   in case WaitAssertionOrTimeout (dioBit s) TIME_TF s of
                        None \<Rightarrow> None
                      | Some (timedout, s) \<Rightarrow>
                          (let s = (if timedout then s\<lparr>m_status := STATUS_FRAMMING_ERROR\<rparr> else s);
                               s = delayMicroseconds TIME_TBB s
                           in Some (isOk s, s)))))"

text \<open>
  \<^verbatim>\<open>for (size_t i = 0; i < length; i++)\<close> with its \<^verbatim>\<open>break\<close>; the array is a list, read
  at index \<open>i\<close>.
\<close>

function Send_array_loop ::
  "8 word list \<Rightarrow> nat \<Rightarrow> bool \<Rightarrow> nat \<Rightarrow> IecSerial \<Rightarrow> IecSerial option" where
  "Send_array_loop data len eoi i s =
     (if i < len then
        (case Send (data ! i) (eoi \<and> i = len - 1) s of
           None \<Rightarrow> None
         | Some (ok, s') \<Rightarrow>
             if \<not> ok then Some s' else Send_array_loop data len eoi (i + 1) s')
      else Some s)"
  by pat_completeness auto
termination
  by (relation "measure (\<lambda>(data, len, eoi, i, s). len - i)") auto

definition Send_array ::
  "8 word list \<Rightarrow> nat \<Rightarrow> bool \<Rightarrow> IecSerial \<Rightarrow> (bool \<times> IecSerial) option" where
  "Send_array data len eoi s =
     (case Send_array_loop data len eoi 0 s of
        None \<Rightarrow> None
      | Some s' \<Rightarrow> Some (isOk s', s'))"

text \<open>\<^verbatim>\<open>strlen\<close>: the number of characters before the first zero.\<close>

definition strlen :: "8 word list \<Rightarrow> nat" where
  "strlen str = length (takeWhile (\<lambda>c. c \<noteq> 0) str)"

definition Send_str :: "8 word list \<Rightarrow> bool \<Rightarrow> IecSerial \<Rightarrow> (bool \<times> IecSerial) option" where
  "Send_str str eoi s = Send_array str (strlen str) eoi s"

definition Command :: "8 word \<Rightarrow> IecSerial \<Rightarrow> (bool \<times> IecSerial) option" where
  "Command cmd s =
     (let s = s\<lparr>m_status := STATUS_OK\<rparr>;
          s = Release (dioBit s) s;
          s = Assert (atnBit s) s;
          s = Assert (clkBit s) s
      in case WaitAssertionOrTimeout (dioBit s) TIME_TAT s of
           None \<Rightarrow> None
         | Some (timedout, s) \<Rightarrow>
             if timedout then
               (let s = s\<lparr>m_status := STATUS_NO_DEVICE\<rparr>;
                    s = ReleaseAll s
                in Some (False, s))
             else
               (case Send cmd False s of
                  None \<Rightarrow> None
                | Some (r, s) \<Rightarrow>
                    (let s = delayMicroseconds TIME_TR s;
                         s = Release (atnBit s) s;
                         s = delayMicroseconds TIME_TTK s
                     in Some (isOk s, s))))"

definition Command_array ::
  "8 word list \<Rightarrow> nat \<Rightarrow> IecSerial \<Rightarrow> (bool \<times> IecSerial) option" where
  "Command_array cmd len s =
     (let s = s\<lparr>m_status := STATUS_OK\<rparr>;
          s = Release (dioBit s) s;
          s = Assert (atnBit s) s;
          s = Assert (clkBit s) s
      in case WaitAssertionOrTimeout (dioBit s) TIME_TAT s of
           None \<Rightarrow> None
         | Some (timedout, s) \<Rightarrow>
             if timedout then
               (let s = s\<lparr>m_status := STATUS_NO_DEVICE\<rparr>;
                    s = ReleaseAll s
                in Some (False, s))
             else
               (case Send_array cmd len False s of
                  None \<Rightarrow> None
                | Some (r, s) \<Rightarrow>
                    (let s = delayMicroseconds TIME_TR s;
                         s = Release (atnBit s) s;
                         s = delayMicroseconds TIME_TTK s
                     in Some (isOk s, s))))"

definition Turnaround :: "IecSerial \<Rightarrow> (bool \<times> IecSerial) option" where
  "Turnaround s =
     (let s = delayMicroseconds TIME_TTK s;
          s = Assert (dioBit s) s;
          s = Release (clkBit s) s;
          s = delayMicroseconds TIME_TDC s
      in case WaitAssertionOrTimeout (clkBit s) 1000 s of
           None \<Rightarrow> None
         | Some (timedout, s) \<Rightarrow>
             if timedout then Some (False, s)
             else Some (True, delayMicroseconds TIME_TDA s))"

definition Talk :: "8 word \<Rightarrow> IecSerial \<Rightarrow> (bool \<times> IecSerial) option" where
  "Talk pad s =
     (case Command (CMD_TALK OR pad) s of
        None \<Rightarrow> None
      | Some (ok, s) \<Rightarrow> if ok then Turnaround s else Some (False, s))"


definition Listen :: "8 word \<Rightarrow> IecSerial \<Rightarrow> (bool \<times> IecSerial) option" where
  "Listen pad s = Command (CMD_LISTEN OR pad) s"

definition Listen_sad :: "8 word \<Rightarrow> 8 word \<Rightarrow> IecSerial \<Rightarrow> (bool \<times> IecSerial) option" where
  "Listen_sad pad sad s = Command_array [CMD_LISTEN OR pad, CMD_SECONDARY OR sad] 2 s"

definition Untalk :: "IecSerial \<Rightarrow> (bool \<times> IecSerial) option" where
  "Untalk s =
     (case Command CMD_UNTALK s of
        None \<Rightarrow> None
      | Some (r, s) \<Rightarrow> (let s = ReleaseAll s in Some (isOk s, s)))"

definition Unlisten :: "IecSerial \<Rightarrow> (bool \<times> IecSerial) option" where
  "Unlisten s =
     (case Command CMD_UNLISTEN s of
        None \<Rightarrow> None
      | Some (r, s) \<Rightarrow> (let s = ReleaseAll s in Some (isOk s, s)))"

definition Reset :: "IecSerial \<Rightarrow> IecSerial" where
  "Reset s =
     (let s = ReleaseAll s;
          s = Assert (rstBit s) s;
          s = delayMicroseconds 1000 s
      in Release (rstBit s) s)"

text \<open>
  The two receive operations are stubs (\<^verbatim>\<open>//***** TODO\<close>, then \<^verbatim>\<open>return isOk();\<close>).
  The buffer passed in is returned with the result, so that a write to it would show.
\<close>

definition Get_array ::
  "8 word list \<Rightarrow> nat \<Rightarrow> IecSerial \<Rightarrow> bool \<times> 8 word list \<times> IecSerial" where
  "Get_array data maxlength s = (isOk s, data, s)"

definition Get_str ::
  "8 word list \<Rightarrow> nat \<Rightarrow> IecSerial \<Rightarrow> bool \<times> 8 word list \<times> IecSerial" where
  "Get_str str maxlength s = (isOk s, str, s)"

section \<open>Vocabulary of the properties\<close>

text \<open>
  What the polling loops leave alone: the registers, the trace and the bit masks.
\<close>

definition same_lines :: "IecSerial \<Rightarrow> IecSerial \<Rightarrow> bool" where
  "same_lines s s' \<longleftrightarrow>
     PORTD s' = PORTD s \<and> DDRD s' = DDRD s \<and> trace s' = trace s \<and>
     srqBit s' = srqBit s \<and> rstBit s' = rstBit s \<and> clkBit s' = clkBit s \<and>
     dioBit s' = dioBit s \<and> atnBit s' = atnBit s"

text \<open>What the line operations and delays leave alone: masks, status and inputs.\<close>

definition same_inputs :: "IecSerial \<Rightarrow> IecSerial \<Rightarrow> bool" where
  "same_inputs s s' \<longleftrightarrow>
     srqBit s' = srqBit s \<and> rstBit s' = rstBit s \<and> clkBit s' = clkBit s \<and>
     dioBit s' = dioBit s \<and> atnBit s' = atnBit s \<and> m_status s' = m_status s \<and>
     pind_in s' = pind_in s \<and> pind_reads s' = pind_reads s \<and>
     micros_in s' = micros_in s \<and> micros_reads s' = micros_reads s"

definition same_masks :: "IecSerial \<Rightarrow> IecSerial \<Rightarrow> bool" where
  "same_masks s s' \<longleftrightarrow>
     srqBit s' = srqBit s \<and> rstBit s' = rstBit s \<and> clkBit s' = clkBit s \<and>
     dioBit s' = dioBit s \<and> atnBit s' = atnBit s"

text \<open>
  The line operations that put one bit, and one byte, on the bus (section 4.3 of the
  specification): Clock asserted, half a set-up time, Data released for a 1 and asserted
  for a 0, the other half, Clock released, the data-valid time; bit 0 first; after the
  eighth bit Data is released and Clock asserted. \<open>SendBits_trace\<close> below shows
  that this is what \<open>SendBits\<close> does.
\<close>

definition bit_ops :: "8 word \<Rightarrow> 8 word \<Rightarrow> bool \<Rightarrow> event list" where
  "bit_ops clk dio b =
     [LineAssert clk, DelayUs 35, if b then LineRelease dio else LineAssert dio,
      DelayUs 35, LineRelease clk, DelayUs 20]"

definition byte_ops :: "8 word \<Rightarrow> 8 word \<Rightarrow> 8 word \<Rightarrow> event list" where
  "byte_ops clk dio d =
     concat (map (\<lambda>i. bit_ops clk dio (bit d i)) [0..<8]) @ [LineRelease dio, LineAssert clk]"

text \<open>
  The line operations of one \<open>Send\<close> that returns: Clock released, the response
  delay, the byte, the time between bytes.
\<close>

definition Send_ops :: "8 word \<Rightarrow> 8 word \<Rightarrow> 8 word \<Rightarrow> bool \<Rightarrow> event list" where
  "Send_ops clk dio d eoi =
     LineRelease clk # DelayUs (if eoi then 30 else 40) # byte_ops clk dio d @ [DelayUs 100]"

text \<open>
  A concrete controller for the examples: hardware with the given bus and clock
  behaviour, and the object constructed on pins 2 (SRQ), 3 (ATN), 4 (CLK), 5 (DIO) and
  6 (RST).
\<close>

definition hw0 :: "8 word stream \<Rightarrow> 32 word stream \<Rightarrow> IecSerial" where
  "hw0 pins clock =
     \<lparr>PORTD = 0, DDRD = 0, pind_in = pins, pind_reads = 0, micros_in = clock,
      micros_reads = 0, trace = [], srqBit = 0, rstBit = 0, clkBit = 0, dioBit = 0,
      atnBit = 0, m_status = 0\<rparr>"

definition controller :: "8 word stream \<Rightarrow> 32 word stream \<Rightarrow> IecSerial" where
  "controller pins clock = IecSerial_new 2 3 4 5 6 (hw0 pins clock)"

text \<open>
  The line operations of the bytes \<open>i\<close> to \<open>k - 1\<close> of an array sent with
  \<open>Send\<close>, the end-of-message flag going to the last byte of the array only.
\<close>

definition bytes_ops ::
  "8 word \<Rightarrow> 8 word \<Rightarrow> 8 word list \<Rightarrow> nat \<Rightarrow> bool \<Rightarrow> nat \<Rightarrow> nat \<Rightarrow> event list" where
  "bytes_ops clk dio data len eoi i k =
     concat (map (\<lambda>j. Send_ops clk dio (data ! j) (eoi \<and> j = len - 1)) [i..<k])"

subsection \<open>A partner on the same bus\<close>

text \<open>
  What a second device sees of the controller. A line is low where the controller drives
  it: the pin is an output (\<^verbatim>\<open>DDRD\<close> bit 1) holding 0 (\<^verbatim>\<open>PORTD\<close> bit 0); everywhere
  else the pull-up holds it high, the partner itself driving nothing.
  \<open>line_levels\<close> replays line operations from a state of the registers and gives the
  levels held during each delay, with its length in microseconds. A partner that polls
  \<open>rate\<close> times per microsecond reads each level \<open>rate * n\<close> times
  (\<open>samples\<close>); \<open>SendBits_seen\<close> is what it reads of its pins while the controller
  runs \<open>SendBits d\<close>.
\<close>

definition pin_level :: "IecSerial \<Rightarrow> 8 word" where
  "pin_level s = NOT (DDRD s AND NOT (PORTD s))"

fun line_levels :: "IecSerial \<Rightarrow> event list \<Rightarrow> (8 word \<times> nat) list" where
  "line_levels s [] = []"
| "line_levels s (LineAssert p # es) = line_levels (Assert p s) es"
| "line_levels s (LineRelease p # es) = line_levels (Release p s) es"
| "line_levels s (DelayUs n # es) = (pin_level s, n) # line_levels s es"

definition samples :: "nat \<Rightarrow> (8 word \<times> nat) list \<Rightarrow> 8 word list" where
  "samples rate w = concat (map (\<lambda>(v, n). replicate (rate * n) v) w)"

definition SendBits_seen :: "nat \<Rightarrow> 8 word \<Rightarrow> IecSerial \<Rightarrow> 8 word list" where
  "SendBits_seen rate d s =
     samples rate (line_levels s (drop (length (trace s)) (trace (SendBits d s))))"

text \<open>
  One iteration of \<open>GetBits\<close> on its accumulator: shift right, then set bit 7 when
  Data was sampled released. \<open>bit_wave\<close> describes a waveform that carries the bits
  \<open>bs\<close>: for each bit two holds with Clock low, then one with Clock high and Data at
  the bit's level (released for a 1), of two microseconds at least.
\<close>

definition rx_step :: "8 word \<Rightarrow> bool \<Rightarrow> 8 word" where
  "rx_step data b = (if b then drop_bit 1 data OR 0x80 else drop_bit 1 data)"

fun bit_wave :: "8 word \<Rightarrow> 8 word \<Rightarrow> bool list \<Rightarrow> (8 word \<times> nat) list \<Rightarrow> bool" where
  "bit_wave clk dio [] w = (w = [])"
| "bit_wave clk dio (b # bs) ((v1, n1) # (v2, n2) # (v3, n3) # w) =
     (v1 AND clk = 0 \<and> v2 AND clk = 0 \<and> v3 AND clk \<noteq> 0 \<and> ((v3 AND dio \<noteq> 0) = b) \<and>
      0 < n1 \<and> 2 \<le> n3 \<and> bit_wave clk dio bs w)"
| "bit_wave clk dio (b # bs) w = False"

declare SendBits_loop.simps [simp del]
declare GetBits_loop.simps [simp del]
declare Send_array_loop.simps [simp del]

section \<open>Frame lemmas\<close>

lemma WaitRelease_frame:
  assumes "WaitRelease pins s = Some s'"
  shows "same_lines s s' \<and> m_status s' = m_status s"
  by (rule WaitRelease.raw_induct
        [where P = "\<lambda>pins s s'. same_lines s s' \<and> m_status s' = m_status s", OF _ assms])
     (auto simp: isAsserted_def read_PIND_def same_lines_def split: if_splits)

lemma WaitAssertion_frame:
  assumes "WaitAssertion pins s = Some s'"
  shows "same_lines s s' \<and> m_status s' = m_status s"
  by (rule WaitAssertion.raw_induct
        [where P = "\<lambda>pins s s'. same_lines s s' \<and> m_status s' = m_status s", OF _ assms])
     (auto simp: isReleased_def read_PIND_def same_lines_def split: if_splits)

lemma WaitAssertionOrTimeout_loop_frame:
  assumes "WaitAssertionOrTimeout_loop pins timeout t0 s = Some r"
  shows "same_lines s (snd r) \<and> m_status (snd r) = (if fst r then STATUS_TIMEOUT else m_status s)"
  by (rule WaitAssertionOrTimeout_loop.raw_induct
        [where P = "\<lambda>pins timeout t0 s r. same_lines s (snd r) \<and>
            m_status (snd r) = (if fst r then STATUS_TIMEOUT else m_status s)", OF _ assms])
     (auto simp: isReleased_def read_PIND_def micros_def same_lines_def split: if_splits)

lemma WaitReleaseOrTimeout_loop_frame:
  assumes "WaitReleaseOrTimeout_loop pins timeout t0 s = Some r"
  shows "same_lines s (snd r) \<and> m_status (snd r) = (if fst r then STATUS_TIMEOUT else m_status s)"
  by (rule WaitReleaseOrTimeout_loop.raw_induct
        [where P = "\<lambda>pins timeout t0 s r. same_lines s (snd r) \<and>
            m_status (snd r) = (if fst r then STATUS_TIMEOUT else m_status s)", OF _ assms])
     (auto simp: isAsserted_def read_PIND_def micros_def same_lines_def split: if_splits)

lemma WaitAssertionOrTimeout_frame:
  assumes "WaitAssertionOrTimeout pins timeout s = Some (t, s')"
  shows "same_lines s s' \<and> m_status s' = (if t then STATUS_TIMEOUT else m_status s)"
  using WaitAssertionOrTimeout_loop_frame [of pins timeout "shd (micros_in s)" _ "(t, s')"] assms
  by (auto simp: WaitAssertionOrTimeout_def micros_def same_lines_def)

lemma WaitReleaseOrTimeout_frame:
  assumes "WaitReleaseOrTimeout pins timeout s = Some (t, s')"
  shows "same_lines s s' \<and> m_status s' = (if t then STATUS_TIMEOUT else m_status s)"
  using WaitReleaseOrTimeout_loop_frame [of pins timeout "shd (micros_in s)" _ "(t, s')"] assms
  by (auto simp: WaitReleaseOrTimeout_def micros_def same_lines_def)

lemma and_1_bit0: "(w AND 1 \<noteq> 0) = bit (w :: 8 word) 0"
  by (simp add: and_one_eq bit_0 odd_iff_mod_2_eq_one)

lemma Assert_fields [simp]:
  "trace (Assert p s) = trace s @ [LineAssert p]"
  "PORTD (Assert p s) = PORTD s AND NOT p"
  "DDRD (Assert p s) = DDRD s OR p"
  "srqBit (Assert p s) = srqBit s" "rstBit (Assert p s) = rstBit s"
  "clkBit (Assert p s) = clkBit s" "dioBit (Assert p s) = dioBit s"
  "atnBit (Assert p s) = atnBit s" "m_status (Assert p s) = m_status s"
  "pind_in (Assert p s) = pind_in s" "pind_reads (Assert p s) = pind_reads s"
  "micros_in (Assert p s) = micros_in s" "micros_reads (Assert p s) = micros_reads s"
  by (simp_all add: Assert_def)

lemma Release_fields [simp]:
  "trace (Release p s) = trace s @ [LineRelease p]"
  "PORTD (Release p s) = PORTD s OR p"
  "DDRD (Release p s) = DDRD s AND NOT p"
  "srqBit (Release p s) = srqBit s" "rstBit (Release p s) = rstBit s"
  "clkBit (Release p s) = clkBit s" "dioBit (Release p s) = dioBit s"
  "atnBit (Release p s) = atnBit s" "m_status (Release p s) = m_status s"
  "pind_in (Release p s) = pind_in s" "pind_reads (Release p s) = pind_reads s"
  "micros_in (Release p s) = micros_in s" "micros_reads (Release p s) = micros_reads s"
  by (simp_all add: Release_def)

lemma delayMicroseconds_fields [simp]:
  "trace (delayMicroseconds n s) = trace s @ [DelayUs (unat n)]"
  "PORTD (delayMicroseconds n s) = PORTD s"
  "DDRD (delayMicroseconds n s) = DDRD s"
  "srqBit (delayMicroseconds n s) = srqBit s" "rstBit (delayMicroseconds n s) = rstBit s"
  "clkBit (delayMicroseconds n s) = clkBit s" "dioBit (delayMicroseconds n s) = dioBit s"
  "atnBit (delayMicroseconds n s) = atnBit s" "m_status (delayMicroseconds n s) = m_status s"
  "pind_in (delayMicroseconds n s) = pind_in s" "pind_reads (delayMicroseconds n s) = pind_reads s"
  "micros_in (delayMicroseconds n s) = micros_in s"
  "micros_reads (delayMicroseconds n s) = micros_reads s"
  by (simp_all add: delayMicroseconds_def)

lemma SendBits_loop_step:
  "b < 8 \<Longrightarrow> SendBits_loop b data s =
     SendBits_loop (Suc b) (drop_bit 1 data)
       (delayMicroseconds 20 (Release (clkBit s) (delayMicroseconds 35
          ((if bit data 0 then Release (dioBit s) else Assert (dioBit s))
             (delayMicroseconds 35 (Assert (clkBit s) s))))))"
  by (subst SendBits_loop.simps) (simp add: Let_def TIME_TS_def TIME_TV_def and_1_bit0)

lemma SendBits_loop_trace:
  "trace (SendBits_loop b data s) =
     trace s @ concat (map (\<lambda>i. bit_ops (clkBit s) (dioBit s) (bit data (i - b))) [b..<8]) \<and>
   same_inputs s (SendBits_loop b data s)"
proof (induction "8 - b" arbitrary: b data s)
  case 0
  then show ?case by (simp add: SendBits_loop.simps [of b] same_inputs_def)
next
  case (Suc k)
  then have True: "b < 8" and k: "k = 8 - Suc b" by simp_all
  define s' where "s' = delayMicroseconds 20 (Release (clkBit s) (delayMicroseconds 35
        ((if bit data 0 then Release (dioBit s) else Assert (dioBit s))
           (delayMicroseconds 35 (Assert (clkBit s) s)))))"
  have step: "SendBits_loop b data s = SendBits_loop (Suc b) (drop_bit 1 data) s'"
    unfolding s'_def by (rule SendBits_loop_step [OF True])
  note ih = Suc.hyps(1) [OF k, of "drop_bit 1 data" s']
  have m: "map (\<lambda>i. bit_ops (clkBit s) (dioBit s) (bit (drop_bit 1 data) (i - Suc b))) [Suc b..<8]
         = map (\<lambda>i. bit_ops (clkBit s) (dioBit s) (bit data (i - b))) [Suc b..<8]"
    by (rule map_cong) (auto simp: bit_drop_bit_eq Suc_diff_Suc)
  have s': "trace s' = trace s @ bit_ops (clkBit s) (dioBit s) (bit data 0)"
    "same_inputs s s'"
    by (simp_all add: s'_def bit_ops_def same_inputs_def)
  have u: "[b..<8] = b # [Suc b..<8]"
    using True by (simp add: upt_conv_Cons)
  from s'(2) have masks: "clkBit s' = clkBit s" "dioBit s' = dioBit s"
    by (simp_all add: same_inputs_def)
  have "trace (SendBits_loop b data s) =
      trace s @ concat (map (\<lambda>i. bit_ops (clkBit s) (dioBit s) (bit data (i - b))) [b..<8])"
  proof -
    have "trace (SendBits_loop b data s) = trace s' @
        concat (map (\<lambda>i. bit_ops (clkBit s) (dioBit s) (bit (drop_bit 1 data) (i - Suc b))) [Suc b..<8])"
      unfolding step using ih masks by simp
    also have "\<dots> = trace s @ concat (map (\<lambda>i. bit_ops (clkBit s) (dioBit s) (bit data (i - b))) [b..<8])"
      unfolding m u s'(1) by simp
    finally show ?thesis .
  qed
  moreover have "same_inputs s (SendBits_loop b data s)"
    unfolding step using ih s'(2) by (simp add: same_inputs_def)
  ultimately show ?case by simp
qed

lemma SendBits_trace:
  "trace (SendBits d s) = trace s @ byte_ops (clkBit s) (dioBit s) d"
  "same_inputs s (SendBits d s)"
  using SendBits_loop_trace [of 0 d s]
  by (simp_all add: SendBits_def Let_def byte_ops_def same_inputs_def)

lemma Send_result:
  assumes "Send d eoi s = Some (r, s')"
  shows "same_masks s s'"
    and "trace s' = trace s @ Send_ops (clkBit s) (dioBit s) d eoi"
    and "r \<longleftrightarrow> m_status s' = STATUS_OK"
    and "m_status s' = STATUS_OK \<or> m_status s' = STATUS_FRAMMING_ERROR \<or>
         (eoi \<and> m_status s' = STATUS_TIMEOUT)"
proof -
  define s0 where "s0 = Release (clkBit s) (s\<lparr>m_status := STATUS_OK\<rparr>)"
  from assms obtain s1 where w1: "WaitRelease (dioBit s) s0 = Some s1"
    by (auto simp: Send_def Let_def s0_def split: option.splits)
  from WaitRelease_frame [OF w1]
  have f1: "same_lines s0 s1" "m_status s1 = STATUS_OK" by (simp_all add: s0_def)
  define e where "e = (if eoi then
                      (case WaitAssertionOrTimeout (dioBit s1) TIME_TYE s1 of
                         None \<Rightarrow> None
                       | Some (t1, s) \<Rightarrow>
                           (case WaitReleaseOrTimeout (dioBit s) TIME_TEI s of
                              None \<Rightarrow> None
                            | Some (t2, s) \<Rightarrow> Some (delayMicroseconds TIME_TRY s)))
                    else Some (delayMicroseconds TIME_TNE s1))"
  from assms w1 obtain s2 where e: "e = Some s2"
    by (auto simp: Send_def Let_def s0_def e_def split: option.splits)
  have f2: "same_masks s1 s2" "PORTD s2 = PORTD s1" "DDRD s2 = DDRD s1"
    "trace s2 = trace s1 @ [DelayUs (if eoi then 30 else 40)]"
    "m_status s2 = STATUS_OK \<or> (eoi \<and> m_status s2 = STATUS_TIMEOUT)"
  proof -
    show "same_masks s1 s2 " "PORTD s2 = PORTD s1" "DDRD s2 = DDRD s1"
    "trace s2 = trace s1 @ [DelayUs (if eoi then 30 else 40)]"
    "m_status s2 = STATUS_OK \<or> (eoi \<and> m_status s2 = STATUS_TIMEOUT)"
      using e f1(2) unfolding e_def
      by (auto simp: same_masks_def same_lines_def TIME_TRY_def TIME_TNE_def
          split: if_splits option.splits
          dest!: WaitAssertionOrTimeout_frame WaitReleaseOrTimeout_frame)
  qed
  define s3 where "s3 = SendBits d s2"
  from assms w1 e obtain t s4 where w4: "WaitAssertionOrTimeout (dioBit s3) TIME_TF s3 = Some (t, s4)"
    by (auto simp: Send_def Let_def s0_def e_def s3_def split: option.splits)
  have res: "r = isOk s'"
    "s' = delayMicroseconds TIME_TBB (if t then s4\<lparr>m_status := STATUS_FRAMMING_ERROR\<rparr> else s4)"
    using assms w1 e w4
    by (auto simp: Send_def Let_def s0_def e_def s3_def split: option.splits)
  note f3 = SendBits_trace [where d = d and s = s2, folded s3_def]
  note f4 = WaitAssertionOrTimeout_frame [OF w4]
  have m: "same_masks s s3"
    using f1 f2(1) f3(2) by (simp add: same_masks_def same_lines_def same_inputs_def s0_def)
  then show "same_masks s s'"
    using f4 by (auto simp: res same_masks_def same_lines_def)
  have "trace s3 = trace s @ LineRelease (clkBit s) # DelayUs (if eoi then 30 else 40) #
       byte_ops (clkBit s) (dioBit s) d"
    using f1 f2 f3 by (simp add: same_masks_def same_lines_def same_inputs_def s0_def)
  then show "trace s' = trace s @ Send_ops (clkBit s) (dioBit s) d eoi"
    using f4 by (auto simp: res same_lines_def Send_ops_def TIME_TBB_def)
  show "r \<longleftrightarrow> m_status s' = STATUS_OK"
    by (simp add: res(1) isOk_def)
  have "m_status s3 = m_status s2"
    using f3(2) by (simp add: same_inputs_def)
  then show "m_status s' = STATUS_OK \<or> m_status s' = STATUS_FRAMMING_ERROR \<or>
         (eoi \<and> m_status s' = STATUS_TIMEOUT)"
    using f2(5) f4 by (auto simp: res split: if_splits)
qed

lemma controller_fields:
  "srqBit (controller p c) = 0x04" "atnBit (controller p c) = 0x08"
  "clkBit (controller p c) = 0x10" "dioBit (controller p c) = 0x20"
  "rstBit (controller p c) = 0x40" "m_status (controller p c) = STATUS_OK"
  "pind_in (controller p c) = p" "micros_in (controller p c) = c"
  "pind_reads (controller p c) = 0" "micros_reads (controller p c) = 0"
  "trace (controller p c) = [LineRelease 0x7C]"
  "PORTD (controller p c) = 0x7C" "DDRD (controller p c) = 0"
  by (simp_all add: controller_def IecSerial_new_def hw0_def ReleaseAll_def all_lines_def)

section \<open>Line queries (C9)\<close>

text \<open>
  C9. \<open>isAsserted\<close> answers true exactly when every queried line reads low, and
  \<open>isReleased\<close> exactly when at least one queried line reads high; on the same pin
  reading each is the negation of the other. Line \<open>i\<close> reads high when bit \<open>i\<close> of
  the value read from \<^verbatim>\<open>PIND\<close> is set. This holds for every set of lines, the empty
  one included.
\<close>

theorem line_queries:
  "(fst (isAsserted pins s) \<longleftrightarrow> (\<forall>i<8. bit pins i \<longrightarrow> \<not> bit (shd (pind_in s)) i)) \<and>
   (fst (isReleased pins s) \<longleftrightarrow> (\<exists>i<8. bit pins i \<and> bit (shd (pind_in s)) i)) \<and>
   (fst (isReleased pins s) \<longleftrightarrow> \<not> fst (isAsserted pins s)) \<and>
   snd (isReleased pins s) = snd (isAsserted pins s)"
proof -
  have "(shd (pind_in s) AND pins = 0) \<longleftrightarrow> (\<forall>i<8. bit pins i \<longrightarrow> \<not> bit (shd (pind_in s)) i)"
    by (auto simp: bit_eq_iff bit_simps dest: bit_imp_le_length)
  then show ?thesis
    by (auto simp: isAsserted_def isReleased_def read_PIND_def)
qed

text \<open>
  Clock and Data queried together (mask \<open>0x30\<close>): with both low the lines are asserted,
  with Data high and Clock low they are released.
\<close>

theorem line_queries_witness:
  "fst (isAsserted 0x30 (controller (0x0F ## sconst 0) (sconst 0))) \<and>
   \<not> bit (shd (pind_in (controller (0x0F ## sconst 0) (sconst 0)))) 4 \<and>
   \<not> bit (shd (pind_in (controller (0x0F ## sconst 0) (sconst 0)))) 5 \<and>
   fst (isReleased 0x30 (controller (0x2F ## sconst 0) (sconst 0))) \<and>
   (\<exists>i<8. bit (0x30 :: 8 word) i \<and>
      bit (shd (pind_in (controller (0x2F ## sconst 0) (sconst 0)))) i)"
  using line_queries [of "0x30" "controller (0x0F ## sconst 0) (sconst 0)"]
    line_queries [of "0x30" "controller (0x2F ## sconst 0) (sconst 0)"]
  by (simp add: isAsserted_def isReleased_def read_PIND_def controller_fields)

section \<open>The receive stubs (C10)\<close>

text \<open>
  C10. Both \<open>Get\<close> operations are inert for every argument: the state comes back as
  it was (no line operation, no read of the pins or of the clock, the same status), the
  buffer comes back as it was, and the result is true exactly when the status left by
  the previous operation is Ok.
\<close>

theorem Get_inert:
  "Get_array data maxlength s = (m_status s = STATUS_OK, data, s) \<and>
   Get_str str maxlength s = (m_status s = STATUS_OK, str, s)"
  by (simp add: Get_array_def Get_str_def isOk_def)

section \<open>The polling loops when they return\<close>

lemma read_PIND_fields [simp]:
  "fst (read_PIND s) = shd (pind_in s)"
  "pind_in (snd (read_PIND s)) = stl (pind_in s)"
  "pind_reads (snd (read_PIND s)) = Suc (pind_reads s)"
  "micros_in (snd (read_PIND s)) = micros_in s"
  "micros_reads (snd (read_PIND s)) = micros_reads s"
  "trace (snd (read_PIND s)) = trace s"
  "PORTD (snd (read_PIND s)) = PORTD s" "DDRD (snd (read_PIND s)) = DDRD s"
  "srqBit (snd (read_PIND s)) = srqBit s" "rstBit (snd (read_PIND s)) = rstBit s"
  "clkBit (snd (read_PIND s)) = clkBit s" "dioBit (snd (read_PIND s)) = dioBit s"
  "atnBit (snd (read_PIND s)) = atnBit s" "m_status (snd (read_PIND s)) = m_status s"
  by (simp_all add: read_PIND_def)

lemma micros_fields [simp]:
  "fst (micros s) = shd (micros_in s)"
  "pind_in (snd (micros s)) = pind_in s"
  "pind_reads (snd (micros s)) = pind_reads s"
  "micros_in (snd (micros s)) = stl (micros_in s)"
  "micros_reads (snd (micros s)) = Suc (micros_reads s)"
  "trace (snd (micros s)) = trace s"
  "PORTD (snd (micros s)) = PORTD s" "DDRD (snd (micros s)) = DDRD s"
  "srqBit (snd (micros s)) = srqBit s" "rstBit (snd (micros s)) = rstBit s"
  "clkBit (snd (micros s)) = clkBit s" "dioBit (snd (micros s)) = dioBit s"
  "atnBit (snd (micros s)) = atnBit s" "m_status (snd (micros s)) = m_status s"
  by (simp_all add: micros_def)

text \<open>The state after \<open>k\<close> polls that each read the pins and then the clock.\<close>

lemma WaitAssertionOrTimeout_loop_timeout:
  assumes "\<forall>j\<le>k. pind_in s !! j AND pins \<noteq> 0"
    and "\<forall>j<k. \<not> timeout < micros_in s !! j - t0"
    and "timeout < micros_in s !! k - t0"
  shows "WaitAssertionOrTimeout_loop pins timeout t0 s =
     Some (True, s\<lparr>pind_in := sdrop (Suc k) (pind_in s), pind_reads := pind_reads s + Suc k,
                   micros_in := sdrop (Suc k) (micros_in s),
                   micros_reads := micros_reads s + Suc k, m_status := STATUS_TIMEOUT\<rparr>)"
  using assms
proof (induction k arbitrary: s)
  case 0
  then show ?case
    by (subst WaitAssertionOrTimeout_loop.simps)
       (simp add: isReleased_def read_PIND_def micros_def)
next
  case (Suc k)
  let ?s2 = "snd (micros (snd (read_PIND s)))"
  have a: "\<forall>j\<le>k. pind_in ?s2 !! j AND pins \<noteq> 0"
  proof (intro allI impI)
    fix j assume "j \<le> k"
    then show "pind_in ?s2 !! j AND pins \<noteq> 0"
      using Suc.prems(1) [rule_format, of "Suc j"] by simp
  qed
  have b: "\<forall>j<k. \<not> timeout < micros_in ?s2 !! j - t0"
  proof (intro allI impI)
    fix j assume "j < k"
    then show "\<not> timeout < micros_in ?s2 !! j - t0"
      using Suc.prems(2) [rule_format, of "Suc j"] by simp
  qed
  have c: "timeout < micros_in ?s2 !! k - t0"
    using Suc.prems(3) by simp
  have r: "shd (pind_in s) AND pins \<noteq> 0"
    using Suc.prems(1) [rule_format, of 0] by simp
  have n: "\<not> timeout < shd (micros_in s) - t0"
    using Suc.prems(2) [rule_format, of 0] by simp
  have "WaitAssertionOrTimeout_loop pins timeout t0 s =
      WaitAssertionOrTimeout_loop pins timeout t0 ?s2"
    by (subst WaitAssertionOrTimeout_loop.simps)
       (simp add: isReleased_def r n split_beta)
  also note Suc.IH [OF a b c]
  finally show ?case
    by (simp add: read_PIND_def micros_def)
qed

lemma WaitAssertionOrTimeout_timeout:
  assumes "\<forall>j\<le>k. pind_in s !! j AND pins \<noteq> 0"
    and "\<forall>j<k. micros_in s !! Suc j - micros_in s !! 0 \<le> timeout"
    and "timeout < micros_in s !! Suc k - micros_in s !! 0"
  shows "WaitAssertionOrTimeout pins timeout s =
     Some (True, s\<lparr>pind_in := sdrop (Suc k) (pind_in s), pind_reads := pind_reads s + Suc k,
                   micros_in := sdrop (Suc (Suc k)) (micros_in s),
                   micros_reads := micros_reads s + Suc (Suc k), m_status := STATUS_TIMEOUT\<rparr>)"
proof -
  let ?s0 = "snd (micros s)"
  have "WaitAssertionOrTimeout pins timeout s =
      WaitAssertionOrTimeout_loop pins timeout (shd (micros_in s)) ?s0"
    by (simp add: WaitAssertionOrTimeout_def split_beta)
  also have "\<dots> = Some (True, ?s0\<lparr>pind_in := sdrop (Suc k) (pind_in ?s0),
                   pind_reads := pind_reads ?s0 + Suc k,
                   micros_in := sdrop (Suc k) (micros_in ?s0),
                   micros_reads := micros_reads ?s0 + Suc k, m_status := STATUS_TIMEOUT\<rparr>)"
    using assms by (intro WaitAssertionOrTimeout_loop_timeout) (simp_all add: not_less)
  finally show ?thesis by (simp add: micros_def)
qed

lemma WaitAssertionOrTimeout_asserted:
  assumes "shd (pind_in s) AND pins = 0"
  shows "WaitAssertionOrTimeout pins timeout s = Some (False, snd (read_PIND (snd (micros s))))"
  using assms
  by (simp add: WaitAssertionOrTimeout_def split_beta)
     (subst WaitAssertionOrTimeout_loop.simps, simp add: isReleased_def split_beta)

lemma WaitReleaseOrTimeout_released:
  assumes "shd (pind_in s) AND pins \<noteq> 0"
  shows "WaitReleaseOrTimeout pins timeout s = Some (False, snd (read_PIND (snd (micros s))))"
  using assms
  by (simp add: WaitReleaseOrTimeout_def split_beta)
     (subst WaitReleaseOrTimeout_loop.simps, simp add: isAsserted_def split_beta)

lemma WaitRelease_released:
  assumes "shd (pind_in s) AND pins \<noteq> 0"
  shows "WaitRelease pins s = Some (snd (read_PIND s))"
  using assms by (subst WaitRelease.simps) (simp add: isAsserted_def split_beta)

lemma WaitAssertion_asserted:
  assumes "shd (pind_in s) AND pins = 0"
  shows "WaitAssertion pins s = Some (snd (read_PIND s))"
  using assms by (subst WaitAssertion.simps) (simp add: isReleased_def split_beta)

lemma status_distinct [simp]:
  "STATUS_NO_DEVICE \<noteq> STATUS_OK" "STATUS_TIMEOUT \<noteq> STATUS_OK"
  "STATUS_FRAMMING_ERROR \<noteq> STATUS_OK" "STATUS_TIMEOUT \<noteq> STATUS_FRAMMING_ERROR"
  "STATUS_NO_DEVICE \<noteq> STATUS_FRAMMING_ERROR" "STATUS_NO_DEVICE \<noteq> STATUS_TIMEOUT"
  "STATUS_OK \<noteq> STATUS_NO_DEVICE" "STATUS_OK \<noteq> STATUS_TIMEOUT"
  "STATUS_OK \<noteq> STATUS_FRAMMING_ERROR" "STATUS_FRAMMING_ERROR \<noteq> STATUS_TIMEOUT"
  "STATUS_FRAMMING_ERROR \<noteq> STATUS_NO_DEVICE" "STATUS_TIMEOUT \<noteq> STATUS_NO_DEVICE"
  by (simp_all add: STATUS_OK_def STATUS_TIMEOUT_def STATUS_FRAMMING_ERROR_def
      STATUS_NO_DEVICE_def)

lemma released_bits: "(x OR a) AND a = (a :: 8 word)" "(x AND NOT a) AND a = 0"
  by (auto simp: bit_eq_iff bit_simps)

lemma ReleaseAll_fields [simp]:
  "trace (ReleaseAll s) = trace s @ [LineRelease (all_lines s)]"
  "PORTD (ReleaseAll s) = PORTD s OR all_lines s"
  "DDRD (ReleaseAll s) = DDRD s AND NOT (all_lines s)"
  "srqBit (ReleaseAll s) = srqBit s" "rstBit (ReleaseAll s) = rstBit s"
  "clkBit (ReleaseAll s) = clkBit s" "dioBit (ReleaseAll s) = dioBit s"
  "atnBit (ReleaseAll s) = atnBit s" "m_status (ReleaseAll s) = m_status s"
  "pind_in (ReleaseAll s) = pind_in s" "pind_reads (ReleaseAll s) = pind_reads s"
  "micros_in (ReleaseAll s) = micros_in s" "micros_reads (ReleaseAll s) = micros_reads s"
  by (simp_all add: ReleaseAll_def)

text \<open>The two ways a \<open>Command\<close> that returns can have gone.\<close>

lemma Command_result:
  assumes "Command cmd s = Some (r, s')"
  shows "same_masks s s'"
    and "r \<longleftrightarrow> m_status s' = STATUS_OK"
    and "(m_status s' = STATUS_NO_DEVICE \<and>
          DDRD s' AND all_lines s = 0 \<and> PORTD s' AND all_lines s = all_lines s \<and>
          trace s' = trace s @ [LineRelease (dioBit s), LineAssert (atnBit s),
                                LineAssert (clkBit s), LineRelease (all_lines s)]) \<or>
         ((m_status s' = STATUS_OK \<or> m_status s' = STATUS_FRAMMING_ERROR) \<and>
          trace s' = trace s @ [LineRelease (dioBit s), LineAssert (atnBit s),
                                LineAssert (clkBit s)] @
                     Send_ops (clkBit s) (dioBit s) cmd False @
                     [DelayUs 20, LineRelease (atnBit s), DelayUs 30])"
proof -
  define s0 where "s0 = Assert (clkBit s) (Assert (atnBit s) (Release (dioBit s)
     (s\<lparr>m_status := STATUS_OK\<rparr>)))"
  from assms obtain t s1 where w: "WaitAssertionOrTimeout (dioBit s) TIME_TAT s0 = Some (t, s1)"
    by (auto simp: Command_def Let_def s0_def split: option.splits)
  note f = WaitAssertionOrTimeout_frame [OF w]
  have m0: "same_masks s s1" "trace s1 = trace s @ [LineRelease (dioBit s), LineAssert (atnBit s),
                                LineAssert (clkBit s)]"
    using f by (simp_all add: same_masks_def same_lines_def s0_def)
  show "same_masks s s'" "r \<longleftrightarrow> m_status s' = STATUS_OK"
    "(m_status s' = STATUS_NO_DEVICE \<and>
          DDRD s' AND all_lines s = 0 \<and> PORTD s' AND all_lines s = all_lines s \<and>
          trace s' = trace s @ [LineRelease (dioBit s), LineAssert (atnBit s),
                                LineAssert (clkBit s), LineRelease (all_lines s)]) \<or>
         ((m_status s' = STATUS_OK \<or> m_status s' = STATUS_FRAMMING_ERROR) \<and>
          trace s' = trace s @ [LineRelease (dioBit s), LineAssert (atnBit s),
                                LineAssert (clkBit s)] @
                     Send_ops (clkBit s) (dioBit s) cmd False @
                     [DelayUs 20, LineRelease (atnBit s), DelayUs 30])"
  proof (atomize (full), cases t)
    case True
    then have s': "s' = ReleaseAll (s1\<lparr>m_status := STATUS_NO_DEVICE\<rparr>)" "r = False"
      using assms w by (auto simp: Command_def Let_def s0_def)
    have al: "all_lines (s1\<lparr>m_status := STATUS_NO_DEVICE\<rparr>) = all_lines s"
      using m0(1) by (simp add: all_lines_def same_masks_def)
    show "same_masks s s' \<and> (r \<longleftrightarrow> m_status s' = STATUS_OK) \<and>
      ((m_status s' = STATUS_NO_DEVICE \<and>
          DDRD s' AND all_lines s = 0 \<and> PORTD s' AND all_lines s = all_lines s \<and>
          trace s' = trace s @ [LineRelease (dioBit s), LineAssert (atnBit s),
                                LineAssert (clkBit s), LineRelease (all_lines s)]) \<or>
         ((m_status s' = STATUS_OK \<or> m_status s' = STATUS_FRAMMING_ERROR) \<and>
          trace s' = trace s @ [LineRelease (dioBit s), LineAssert (atnBit s),
                                LineAssert (clkBit s)] @
                     Send_ops (clkBit s) (dioBit s) cmd False @
                     [DelayUs 20, LineRelease (atnBit s), DelayUs 30]))"
      using m0 by (simp add: s' al released_bits same_masks_def)
  next
    case False
    then obtain r1 s2 where snd: "Send cmd False s1 = Some (r1, s2)"
      and s': "s' = delayMicroseconds TIME_TTK (Release (atnBit s2) (delayMicroseconds TIME_TR s2))"
        "r = isOk s'"
      using assms w by (auto simp: Command_def Let_def s0_def split: option.splits)
    note g = Send_result [OF snd]
    show "same_masks s s' \<and> (r \<longleftrightarrow> m_status s' = STATUS_OK) \<and>
      ((m_status s' = STATUS_NO_DEVICE \<and>
          DDRD s' AND all_lines s = 0 \<and> PORTD s' AND all_lines s = all_lines s \<and>
          trace s' = trace s @ [LineRelease (dioBit s), LineAssert (atnBit s),
                                LineAssert (clkBit s), LineRelease (all_lines s)]) \<or>
         ((m_status s' = STATUS_OK \<or> m_status s' = STATUS_FRAMMING_ERROR) \<and>
          trace s' = trace s @ [LineRelease (dioBit s), LineAssert (atnBit s),
                                LineAssert (clkBit s)] @
                     Send_ops (clkBit s) (dioBit s) cmd False @
                     [DelayUs 20, LineRelease (atnBit s), DelayUs 30]))"
      using m0 g by (auto simp: s' same_masks_def isOk_def TIME_TTK_def TIME_TR_def)
  qed
qed

section \<open>Command without a device (C1)\<close>

lemma length_byte_ops: "length (byte_ops clk dio d) = 50"
  by (simp add: byte_ops_def bit_ops_def upt_rec [of _ 8] length_concat)

lemma Command_timeout:
  assumes "\<forall>j\<le>k. pind_in s !! j AND dioBit s \<noteq> 0"
    and "\<forall>j<k. micros_in s !! Suc j - micros_in s !! 0 \<le> TIME_TAT"
    and "TIME_TAT < micros_in s !! Suc k - micros_in s !! 0"
  shows "Command cmd s = Some (False, ReleaseAll
     ((Assert (clkBit s) (Assert (atnBit s) (Release (dioBit s) s)))
        \<lparr>pind_in := sdrop (Suc k) (pind_in s), pind_reads := pind_reads s + Suc k,
         micros_in := sdrop (Suc (Suc k)) (micros_in s),
         micros_reads := micros_reads s + Suc (Suc k), m_status := STATUS_NO_DEVICE\<rparr>))"
proof -
  define s0 where "s0 = Assert (clkBit s) (Assert (atnBit s) (Release (dioBit s)
     (s\<lparr>m_status := STATUS_OK\<rparr>)))"
  have "WaitAssertionOrTimeout (dioBit s) TIME_TAT s0 =
     Some (True, s0\<lparr>pind_in := sdrop (Suc k) (pind_in s0), pind_reads := pind_reads s0 + Suc k,
                   micros_in := sdrop (Suc (Suc k)) (micros_in s0),
                   micros_reads := micros_reads s0 + Suc (Suc k), m_status := STATUS_TIMEOUT\<rparr>)"
    using assms by (intro WaitAssertionOrTimeout_timeout) (simp_all add: s0_def)
  then show ?thesis
    by (simp add: Command_def Let_def s0_def Assert_def Release_def ReleaseAll_def all_lines_def)
qed

text \<open>
  C1. \<open>Command\<close> of one byte when no device answers. The hypothesis says what the
  controller observes after it has asserted Attention and Clock: Data reads released at
  each of its polls, up to the poll after which the clock first shows more than
  \<open>TIME_TAT\<close> (1000 microseconds) elapsed; \<open>k\<close> is the number of polls before that one.
  Then \<open>Command\<close> returns false with status NoDevice and all five lines released
  (inputs with pull-up), and its only line operations are the release of Data, the
  assertion of Attention and of Clock, and the release of all lines: no byte is put on
  the bus.
\<close>

theorem Command_no_device:
  assumes "\<forall>j\<le>k. pind_in s !! j AND dioBit s \<noteq> 0"
    and "\<forall>j<k. micros_in s !! Suc j - micros_in s !! 0 \<le> TIME_TAT"
    and "TIME_TAT < micros_in s !! Suc k - micros_in s !! 0"
  shows "\<exists>s'. Command cmd s = Some (False, s') \<and>
     m_status s' = STATUS_NO_DEVICE \<and>
     DDRD s' AND all_lines s = 0 \<and> PORTD s' AND all_lines s = all_lines s \<and>
     trace s' = trace s @ [LineRelease (dioBit s), LineAssert (atnBit s),
                           LineAssert (clkBit s), LineRelease (all_lines s)] \<and>
     (\<forall>d pre post. trace s' \<noteq> trace s @ pre @ byte_ops (clkBit s) (dioBit s) d @ post)"
proof -
  define s' where "s' = ReleaseAll
     ((Assert (clkBit s) (Assert (atnBit s) (Release (dioBit s) s)))
        \<lparr>pind_in := sdrop (Suc k) (pind_in s), pind_reads := pind_reads s + Suc k,
         micros_in := sdrop (Suc (Suc k)) (micros_in s),
         micros_reads := micros_reads s + Suc (Suc k), m_status := STATUS_NO_DEVICE\<rparr>)"
  have c: "Command cmd s = Some (False, s')"
    unfolding s'_def by (rule Command_timeout [OF assms])
  have st: "m_status s' = STATUS_NO_DEVICE"
    by (simp add: s'_def)
  have al: "all_lines ((Assert (clkBit s) (Assert (atnBit s) (Release (dioBit s) s)))
        \<lparr>pind_in := sdrop (Suc k) (pind_in s), pind_reads := pind_reads s + Suc k,
         micros_in := sdrop (Suc (Suc k)) (micros_in s),
         micros_reads := micros_reads s + Suc (Suc k), m_status := STATUS_NO_DEVICE\<rparr>)
        = all_lines s"
    by (simp add: all_lines_def)
  have s'': "s' = ReleaseAll ((Assert (clkBit s) (Assert (atnBit s) (Release (dioBit s) s)))
        \<lparr>pind_in := sdrop (Suc k) (pind_in s), pind_reads := pind_reads s + Suc k,
         micros_in := sdrop (Suc (Suc k)) (micros_in s),
         micros_reads := micros_reads s + Suc (Suc k), m_status := STATUS_NO_DEVICE\<rparr>)"
    by (fact s'_def)
  have d: "DDRD s' AND all_lines s = 0" and p: "PORTD s' AND all_lines s = all_lines s"
    and t: "trace s' = trace s @ [LineRelease (dioBit s), LineAssert (atnBit s),
                           LineAssert (clkBit s), LineRelease (all_lines s)]"
    unfolding s'' ReleaseAll_fields al by (simp_all add: released_bits)
  have n: "trace s' \<noteq> trace s @ pre @ byte_ops (clkBit s) (dioBit s) d @ post" for d pre post
  proof
    assume "trace s' = trace s @ pre @ byte_ops (clkBit s) (dioBit s) d @ post"
    then have "length (trace s') = length (trace s @ pre @ byte_ops (clkBit s) (dioBit s) d @ post)"
      by (rule arg_cong)
    then show False
      by (simp add: t length_byte_ops)
  qed
  show ?thesis
    using c st d p t n by (intro exI [of _ s']) simp
qed

text \<open>
  Data stays high; the clock reads 0, then 500, then 1500 microseconds.
\<close>

theorem Command_no_device_witness:
  "\<exists>s'. Command 0x3F (controller (sconst 0xFF) (0 ## 500 ## sconst 1500)) = Some (False, s') \<and>
     m_status s' = STATUS_NO_DEVICE \<and> DDRD s' AND 0x7C = 0 \<and> PORTD s' AND 0x7C = 0x7C \<and>
     trace s' = [LineRelease 0x7C, LineRelease 0x20, LineAssert 0x08, LineAssert 0x10,
                 LineRelease 0x7C]"
proof -
  let ?S = "controller (sconst 0xFF) (0 ## 500 ## sconst 1500)"
  have h1: "\<forall>j\<le>1. pind_in ?S !! j AND dioBit ?S \<noteq> 0"
    by (simp add: controller_fields)
  have h2: "\<forall>j<1. micros_in ?S !! Suc j - micros_in ?S !! 0 \<le> TIME_TAT"
    by (simp add: controller_fields TIME_TAT_def)
  have h3: "TIME_TAT < micros_in ?S !! Suc 1 - micros_in ?S !! 0"
    by (simp add: controller_fields TIME_TAT_def)
  from Command_no_device [OF h1 h2 h3, of "0x3F"] obtain s' where
    c: "Command 0x3F ?S = Some (False, s')" and
    s: "m_status s' = STATUS_NO_DEVICE" and
    d: "DDRD s' AND all_lines ?S = 0" and
    p: "PORTD s' AND all_lines ?S = all_lines ?S" and
    t: "trace s' = trace ?S @ [LineRelease (dioBit ?S), LineAssert (atnBit ?S),
                           LineAssert (clkBit ?S), LineRelease (all_lines ?S)]"
    by (elim exE conjE)
  have a: "all_lines ?S = 0x7C"
    by (simp add: all_lines_def controller_fields)
  show ?thesis
    using c s d p t unfolding a by (intro exI [of _ s']) (simp add: controller_fields)
qed

section \<open>The status at the start of an operation (C3, C4)\<close>

text \<open>
  \<open>Send\<close> of one byte and both \<open>Command\<close> forms overwrite the status before
  anything else, so their outcome does not depend on the status they find. The array
  form of \<open>Send\<close> has no such assignment of its own: it inherits the one of the
  first byte it sends.
\<close>

lemma Send_ignores_status: "Send d eoi (s\<lparr>m_status := x\<rparr>) = Send d eoi s"
  by (simp add: Send_def)

lemma Command_ignores_status: "Command cmd (s\<lparr>m_status := x\<rparr>) = Command cmd s"
  by (simp add: Command_def)

lemma Command_array_ignores_status:
  "Command_array cmd len (s\<lparr>m_status := x\<rparr>) = Command_array cmd len s"
  by (simp add: Command_array_def)

lemma Send_array_ignores_status:
  "0 < len \<Longrightarrow> Send_array data len eoi (s\<lparr>m_status := x\<rparr>) = Send_array data len eoi s"
  by (simp add: Send_array_def Send_array_loop.simps [of _ len _ 0] Send_ignores_status)

text \<open>
  With length 0 the loop body never runs. The state comes back as it was: no line
  operation, no read, nothing transmitted. The result is the old status, not success.
\<close>

lemma Send_array_zero: "Send_array data 0 eoi s = Some (m_status s = STATUS_OK, s)"
  by (simp add: Send_array_def Send_array_loop.simps [of _ 0] isOk_def)

text \<open>
  C3. The specification: whatever the prior status, \<open>Send(data, 0, eoi)\<close> returns
  true, transmits nothing and touches no line. The code, called after a \<open>Command\<close>
  that found no device (Data high, the clock jumping past \<open>TIME_TAT\<close>): no line
  operation is added to those of the \<open>Command\<close>, but the result is false and the
  status is still NoDevice. The same on a state whose status was set to NoDevice
  directly.
\<close>

theorem Send_array_zero_stale_status:
  "map_option fst (Option.bind (Command 0x3F (controller (sconst 0xFF) (0 ## sconst 2000)))
      (Send_array [] 0 True \<circ> snd)) = Some False \<and>
   map_option (m_status \<circ> snd)
     (Option.bind (Command 0x3F (controller (sconst 0xFF) (0 ## sconst 2000)))
        (Send_array [] 0 True \<circ> snd)) = Some STATUS_NO_DEVICE \<and>
   map_option (trace \<circ> snd)
     (Option.bind (Command 0x3F (controller (sconst 0xFF) (0 ## sconst 2000)))
        (Send_array [] 0 True \<circ> snd)) =
     map_option (trace \<circ> snd) (Command 0x3F (controller (sconst 0xFF) (0 ## sconst 2000))) \<and>
   Send_array [] 0 True ((controller (sconst 0xFF) (sconst 0))\<lparr>m_status := STATUS_NO_DEVICE\<rparr>) =
     Some (False, (controller (sconst 0xFF) (sconst 0))\<lparr>m_status := STATUS_NO_DEVICE\<rparr>)"
proof -
  let ?S = "controller (sconst 0xFF) (0 ## sconst 2000)"
  have h1: "\<forall>j\<le>0. pind_in ?S !! j AND dioBit ?S \<noteq> 0"
    by (simp add: controller_fields)
  have h2: "\<forall>j<0. micros_in ?S !! Suc j - micros_in ?S !! 0 \<le> TIME_TAT"
    by simp
  have h3: "TIME_TAT < micros_in ?S !! Suc 0 - micros_in ?S !! 0"
    by (simp add: controller_fields TIME_TAT_def)
  show ?thesis
    unfolding Command_timeout [OF h1 h2 h3]
    by (simp add: Send_array_zero)
qed

text \<open>
  C4. The specification: every \<open>Command\<close> and \<open>Send\<close> form sets the status to Ok at its
  start, for every argument including a zero-length array, so that its result never
  depends on the status left by the previous call. The code, for the zero-length array
  and the empty string: the same call returns true after Ok and false after
  FramingError, and leaves FramingError in place.
\<close>

theorem Send_array_zero_depends_on_status:
  "map_option fst (Send_array [] 0 False
      ((controller (sconst 0xFF) (sconst 0))\<lparr>m_status := STATUS_OK\<rparr>)) = Some True \<and>
   map_option fst (Send_array [] 0 False
      ((controller (sconst 0xFF) (sconst 0))\<lparr>m_status := STATUS_FRAMMING_ERROR\<rparr>)) = Some False \<and>
   map_option (m_status \<circ> snd) (Send_array [] 0 False
      ((controller (sconst 0xFF) (sconst 0))\<lparr>m_status := STATUS_FRAMMING_ERROR\<rparr>)) =
     Some STATUS_FRAMMING_ERROR \<and>
   map_option fst (Send_str [0] False
      ((controller (sconst 0xFF) (sconst 0))\<lparr>m_status := STATUS_FRAMMING_ERROR\<rparr>)) = Some False"
  by (simp add: Send_array_zero Send_str_def strlen_def STATUS_FRAMMING_ERROR_def STATUS_OK_def)

section \<open>A device that answers every wait at the first poll\<close>

lemma SendBits_fields [simp]:
  "trace (SendBits d s) = trace s @ byte_ops (clkBit s) (dioBit s) d"
  "srqBit (SendBits d s) = srqBit s" "rstBit (SendBits d s) = rstBit s"
  "clkBit (SendBits d s) = clkBit s" "dioBit (SendBits d s) = dioBit s"
  "atnBit (SendBits d s) = atnBit s" "m_status (SendBits d s) = m_status s"
  "pind_in (SendBits d s) = pind_in s" "pind_reads (SendBits d s) = pind_reads s"
  "micros_in (SendBits d s) = micros_in s" "micros_reads (SendBits d s) = micros_reads s"
  using SendBits_trace [where d = d and s = s] by (simp_all add: same_inputs_def)

lemma Send_prompt:
  assumes "pind_in s = a ## b ## rest" "a AND dioBit s \<noteq> 0" "b AND dioBit s = 0"
  shows "\<exists>s'. Send d False s = Some (True, s') \<and> m_status s' = STATUS_OK \<and>
     pind_in s' = rest \<and> same_masks s s'"
  using assms
  by (simp add: Send_def Let_def WaitRelease_released WaitAssertionOrTimeout_asserted
      isOk_def same_masks_def)

lemma Command_prompt:
  assumes "pind_in s = a ## b ## c ## rest"
    "a AND dioBit s = 0" "b AND dioBit s \<noteq> 0" "c AND dioBit s = 0"
  shows "\<exists>s'. Command cmd s = Some (True, s') \<and> m_status s' = STATUS_OK \<and> pind_in s' = rest"
proof -
  define s1 where "s1 = snd (read_PIND (snd (micros (Assert (clkBit s) (Assert (atnBit s)
     (Release (dioBit s) (s\<lparr>m_status := STATUS_OK\<rparr>)))))))"
  have w: "WaitAssertionOrTimeout (dioBit s) TIME_TAT (Assert (clkBit s) (Assert (atnBit s)
     (Release (dioBit s) (s\<lparr>m_status := STATUS_OK\<rparr>)))) = Some (False, s1)"
    unfolding s1_def using assms by (intro WaitAssertionOrTimeout_asserted) simp
  have "pind_in s1 = b ## c ## rest" "b AND dioBit s1 \<noteq> 0" "c AND dioBit s1 = 0"
    using assms by (simp_all add: s1_def)
  from Send_prompt [OF this, of cmd] obtain s2 where
    "Send cmd False s1 = Some (True, s2)" "m_status s2 = STATUS_OK" "pind_in s2 = rest"
    by blast
  then show ?thesis
    using w by (simp add: Command_def Let_def isOk_def)
qed

section \<open>Untalk and Unlisten (C8)\<close>

lemma all_lines_same_masks: "same_masks s s' \<Longrightarrow> all_lines s' = all_lines s"
  by (simp add: same_masks_def all_lines_def)

text \<open>
  C8. Whenever \<open>Untalk\<close> or \<open>Unlisten\<close> returns, whatever its \<open>Command\<close> did,
  all five lines are released (their \<^verbatim>\<open>DDRD\<close> bits are 0, inputs, and their
  \<^verbatim>\<open>PORTD\<close> bits are 1, pull-ups on), and the result is true exactly when the final
  status is Ok.
\<close>

theorem Untalk_Unlisten_release:
  "(Untalk s = Some (r, s') \<longrightarrow>
      DDRD s' AND all_lines s = 0 \<and> PORTD s' AND all_lines s = all_lines s \<and>
      all_lines s' = all_lines s \<and> (r \<longleftrightarrow> m_status s' = STATUS_OK)) \<and>
   (Unlisten s = Some (r, s') \<longrightarrow>
      DDRD s' AND all_lines s = 0 \<and> PORTD s' AND all_lines s = all_lines s \<and>
      all_lines s' = all_lines s \<and> (r \<longleftrightarrow> m_status s' = STATUS_OK))"
proof -
  have *: "DDRD s' AND all_lines s = 0 \<and> PORTD s' AND all_lines s = all_lines s \<and>
      all_lines s' = all_lines s \<and> (r \<longleftrightarrow> m_status s' = STATUS_OK)"
    if c: "Command cmd s = Some (r1, s1)" and s': "s' = ReleaseAll s1" and r: "r = isOk s'"
    for cmd r1 s1
  proof -
    have a: "all_lines s1 = all_lines s"
      using Command_result(1) [OF c] by (rule all_lines_same_masks)
    have b: "all_lines (ReleaseAll s1) = all_lines s1"
      by (simp add: all_lines_def)
    show ?thesis
      unfolding s' r b ReleaseAll_fields a
      by (simp add: released_bits isOk_def)
  qed
  show ?thesis
  proof (rule conjI; rule impI)
    assume "Untalk s = Some (r, s')"
    then obtain r1 s1 where "Command CMD_UNTALK s = Some (r1, s1)" "s' = ReleaseAll s1"
      "r = isOk s'"
      by (auto simp: Untalk_def Let_def split: option.splits)
    then show "DDRD s' AND all_lines s = 0 \<and> PORTD s' AND all_lines s = all_lines s \<and>
      all_lines s' = all_lines s \<and> (r \<longleftrightarrow> m_status s' = STATUS_OK)"
      by (rule *)
  next
    assume "Unlisten s = Some (r, s')"
    then obtain r1 s1 where "Command CMD_UNLISTEN s = Some (r1, s1)" "s' = ReleaseAll s1"
      "r = isOk s'"
      by (auto simp: Unlisten_def Let_def split: option.splits)
    then show "DDRD s' AND all_lines s = 0 \<and> PORTD s' AND all_lines s = all_lines s \<and>
      all_lines s' = all_lines s \<and> (r \<longleftrightarrow> m_status s' = STATUS_OK)"
      by (rule *)
  qed
qed

lemma Untalk_no_device:
  assumes "\<forall>j\<le>k. pind_in s !! j AND dioBit s \<noteq> 0"
    and "\<forall>j<k. micros_in s !! Suc j - micros_in s !! 0 \<le> TIME_TAT"
    and "TIME_TAT < micros_in s !! Suc k - micros_in s !! 0"
  shows "\<exists>s'. Untalk s = Some (False, s') \<and> m_status s' = STATUS_NO_DEVICE"
    and "\<exists>s'. Unlisten s = Some (False, s') \<and> m_status s' = STATUS_NO_DEVICE"
  by (simp_all add: Untalk_def Unlisten_def Command_timeout [OF assms] Let_def isOk_def)

lemma Untalk_prompt:
  assumes "pind_in s = a ## b ## c ## rest"
    "a AND dioBit s = 0" "b AND dioBit s \<noteq> 0" "c AND dioBit s = 0"
  shows "\<exists>s'. Untalk s = Some (True, s')" and "\<exists>s'. Unlisten s = Some (True, s')"
proof -
  from Command_prompt [OF assms, of CMD_UNTALK] obtain s1 where
    "Command CMD_UNTALK s = Some (True, s1)" "m_status s1 = STATUS_OK"
    by (elim exE conjE)
  then show "\<exists>s'. Untalk s = Some (True, s')"
    by (simp add: Untalk_def Let_def isOk_def)
  from Command_prompt [OF assms, of CMD_UNLISTEN] obtain s2 where
    "Command CMD_UNLISTEN s = Some (True, s2)" "m_status s2 = STATUS_OK"
    by (elim exE conjE)
  then show "\<exists>s'. Unlisten s = Some (True, s')"
    by (simp add: Unlisten_def Let_def isOk_def)
qed

text \<open>
  \<open>Untalk\<close> on a bus where nobody answers (NoDevice), and \<open>Unlisten\<close> with a
  device that answers at once.
\<close>

theorem Untalk_Unlisten_release_witness:
  "(\<exists>s'. Untalk (controller (sconst 0xFF) (0 ## sconst 2000)) = Some (False, s') \<and>
      DDRD s' AND 0x7C = 0 \<and> PORTD s' AND 0x7C = 0x7C \<and> m_status s' = STATUS_NO_DEVICE) \<and>
   (\<exists>s'. Unlisten (controller (0 ## 0xFF ## sconst 0) (sconst 0)) = Some (True, s') \<and>
      DDRD s' AND 0x7C = 0 \<and> PORTD s' AND 0x7C = 0x7C \<and> m_status s' = STATUS_OK)"
proof -
  let ?S = "controller (sconst 0xFF) (0 ## sconst 2000)"
  let ?T = "controller (0 ## 0xFF ## sconst 0) (sconst 0)"
  have a: "all_lines ?S = 0x7C" "all_lines ?T = 0x7C"
    by (simp_all add: all_lines_def controller_fields)
  have "\<exists>s'. Untalk ?S = Some (False, s') \<and> m_status s' = STATUS_NO_DEVICE"
    by (rule Untalk_no_device(1) [of 0]) (simp_all add: controller_fields TIME_TAT_def)
  then obtain s1 where u: "Untalk ?S = Some (False, s1)" and s1: "m_status s1 = STATUS_NO_DEVICE"
    by (elim exE conjE)
  have p: "pind_in ?T = 0 ## 0xFF ## 0 ## sconst 0"
    by (simp add: controller_fields) (subst siterate.code, simp)
  have "\<exists>s'. Unlisten ?T = Some (True, s')"
    by (rule Untalk_prompt(2) [OF p]) (simp_all add: controller_fields)
  then obtain s2 where v: "Unlisten ?T = Some (True, s2)" ..
  show ?thesis
    using Untalk_Unlisten_release [of ?S False s1] Untalk_Unlisten_release [of ?T True s2]
      u v s1
    unfolding a by (intro conjI exI [of _ s1] exI [of _ s2]) simp_all
qed

section \<open>Send with EOI (C5)\<close>

text \<open>
  C5. \<open>Send\<close> of one byte with EOI, when each of its waits returns: \<open>t_ack\<close>,
  \<open>t_hold\<close> and \<open>t_frame\<close> say whether the EOI-acknowledge wait (\<open>TIME_TYE\<close>),
  the EOI-hold wait (\<open>TIME_TEI\<close>) and the frame-handshake wait after the eight bits
  (\<open>TIME_TF\<close>) timed out. The status on return is FramingError exactly when the
  frame-handshake wait timed out; a timeout of the two EOI waits alone leaves Timeout,
  never FramingError.
\<close>

theorem Send_eoi_status:
  assumes w1: "WaitRelease (dioBit s) (Release (clkBit s) (s\<lparr>m_status := STATUS_OK\<rparr>)) = Some s1"
    and w2: "WaitAssertionOrTimeout (dioBit s) TIME_TYE s1 = Some (t_ack, s2)"
    and w3: "WaitReleaseOrTimeout (dioBit s) TIME_TEI s2 = Some (t_hold, s3)"
    and w4: "WaitAssertionOrTimeout (dioBit s) TIME_TF
               (SendBits d (delayMicroseconds TIME_TRY s3)) = Some (t_frame, s4)"
  shows "\<exists>s'. Send d True s = Some (\<not> t_ack \<and> \<not> t_hold \<and> \<not> t_frame, s') \<and>
     (m_status s' = STATUS_FRAMMING_ERROR \<longleftrightarrow> t_frame) \<and>
     m_status s' = (if t_frame then STATUS_FRAMMING_ERROR
                    else if t_ack \<or> t_hold then STATUS_TIMEOUT else STATUS_OK)"
proof -
  note f1 = WaitRelease_frame [OF w1]
  note f2 = WaitAssertionOrTimeout_frame [OF w2]
  note f3 = WaitReleaseOrTimeout_frame [OF w3]
  note f4 = WaitAssertionOrTimeout_frame [OF w4]
  have d1: "dioBit s1 = dioBit s" and d2: "dioBit s2 = dioBit s" and d3: "dioBit s3 = dioBit s"
    using f1 f2 f3 by (simp_all add: same_lines_def)
  have m3: "m_status s3 = (if t_ack \<or> t_hold then STATUS_TIMEOUT else STATUS_OK)"
    using f1 f2 f3 by simp
  have m4: "m_status s4 = (if t_frame then STATUS_TIMEOUT else m_status s3)"
    using f4 by simp
  define s' where "s' = delayMicroseconds TIME_TBB
     (if t_frame then s4\<lparr>m_status := STATUS_FRAMMING_ERROR\<rparr> else s4)"
  have st: "m_status s' = (if t_frame then STATUS_FRAMMING_ERROR
                    else if t_ack \<or> t_hold then STATUS_TIMEOUT else STATUS_OK)"
    by (simp add: s'_def m4 m3)
  have "Send d True s = Some (isOk s', s')"
    using w1 w2 w3 w4 by (simp add: Send_def Let_def d1 d2 d3 s'_def)
  moreover have "isOk s' \<longleftrightarrow> \<not> t_ack \<and> \<not> t_hold \<and> \<not> t_frame"
    by (simp add: isOk_def st)
  moreover have "m_status s' = STATUS_FRAMMING_ERROR \<longleftrightarrow> t_frame"
    by (simp add: st)
  ultimately show ?thesis
    using st by (intro exI [of _ s']) simp
qed

text \<open>
  The listener is ready at once, never acknowledges the EOI (the clock jumps past
  \<open>TIME_TYE\<close>), and accepts the byte: the status is Timeout, not FramingError.
\<close>

theorem Send_eoi_status_witness:
  "\<exists>s'. Send 0x41 True (controller (0xFF ## 0xFF ## 0xFF ## sconst 0) (0 ## sconst 300)) =
          Some (False, s') \<and> m_status s' = STATUS_TIMEOUT \<and>
          m_status s' \<noteq> STATUS_FRAMMING_ERROR"
proof -
  let ?S = "controller (0xFF ## 0xFF ## 0xFF ## sconst 0) (0 ## sconst 300)"
  let ?s0 = "Release (clkBit ?S) (?S\<lparr>m_status := STATUS_OK\<rparr>)"
  let ?s1 = "snd (read_PIND ?s0)"
  have w1: "WaitRelease (dioBit ?S) ?s0 = Some ?s1"
    by (rule WaitRelease_released) (simp add: controller_fields)
  let ?s2 = "?s1\<lparr>pind_in := sdrop (Suc 0) (pind_in ?s1), pind_reads := pind_reads ?s1 + Suc 0,
                   micros_in := sdrop (Suc (Suc 0)) (micros_in ?s1),
                   micros_reads := micros_reads ?s1 + Suc (Suc 0), m_status := STATUS_TIMEOUT\<rparr>"
  have w2: "WaitAssertionOrTimeout (dioBit ?S) TIME_TYE ?s1 = Some (True, ?s2)"
    by (rule WaitAssertionOrTimeout_timeout) (simp_all add: controller_fields TIME_TYE_def)
  let ?s3 = "snd (read_PIND (snd (micros ?s2)))"
  have w3: "WaitReleaseOrTimeout (dioBit ?S) TIME_TEI ?s2 = Some (False, ?s3)"
    by (rule WaitReleaseOrTimeout_released) (simp add: controller_fields)
  let ?s4 = "snd (read_PIND (snd (micros (SendBits 0x41 (delayMicroseconds TIME_TRY ?s3)))))"
  have w4: "WaitAssertionOrTimeout (dioBit ?S) TIME_TF
               (SendBits 0x41 (delayMicroseconds TIME_TRY ?s3)) = Some (False, ?s4)"
    by (rule WaitAssertionOrTimeout_asserted) (simp add: controller_fields)
  from Send_eoi_status [OF w1 w2 w3 w4] obtain s' where
    "Send 0x41 True ?S = Some (\<not> True \<and> \<not> False \<and> \<not> False, s')"
    "m_status s' = (if False then STATUS_FRAMMING_ERROR
                    else if True \<or> False then STATUS_TIMEOUT else STATUS_OK)"
    by (elim exE conjE)
  then show ?thesis
    by (intro exI [of _ s']) simp
qed

section \<open>Sending several bytes; Turnaround\<close>


lemma bytes_ops_Nil [simp]: "bytes_ops clk dio data len eoi i i = []"
  by (simp add: bytes_ops_def)





section \<open>Listen and Talk (C7, C6)\<close>

text \<open>
  C7 as stated (\<open>Listen(pad)\<close> transmits exactly one command byte) fails on a bus
  where no device answers: \<open>Listen(4)\<close> returns false with status NoDevice, and its
  line operations after the constructor's are the release of Data, the assertion of
  Attention and Clock and the release of all lines. No byte was clocked out.
\<close>

theorem Listen_no_device_counterexample:
  "map_option fst (Listen 4 (controller (sconst 0xFF) (0 ## sconst 2000))) = Some False \<and>
   map_option (m_status \<circ> snd) (Listen 4 (controller (sconst 0xFF) (0 ## sconst 2000))) =
     Some STATUS_NO_DEVICE \<and>
   map_option (trace \<circ> snd) (Listen 4 (controller (sconst 0xFF) (0 ## sconst 2000))) =
     Some [LineRelease 0x7C, LineRelease 0x20, LineAssert 0x08, LineAssert 0x10,
           LineRelease 0x7C] \<and>
   map_option (trace \<circ> snd) (Listen 4 (controller (sconst 0xFF) (0 ## sconst 2000))) \<noteq>
     Some ([LineRelease 0x7C, LineRelease 0x20, LineAssert 0x08, LineAssert 0x10] @
           Send_ops 0x10 0x20 0x24 False @ [DelayUs 20, LineRelease 0x08, DelayUs 30])"
proof -
  let ?S = "controller (sconst 0xFF) (0 ## sconst 2000)"
  have h1: "\<forall>j\<le>0. pind_in ?S !! j AND dioBit ?S \<noteq> 0"
    by (simp add: controller_fields)
  have h2: "\<forall>j<0. micros_in ?S !! Suc j - micros_in ?S !! 0 \<le> TIME_TAT"
    by simp
  have h3: "TIME_TAT < micros_in ?S !! Suc 0 - micros_in ?S !! 0"
    by (simp add: controller_fields TIME_TAT_def)
  show ?thesis
    unfolding Listen_def Command_timeout [OF h1 h2 h3]
    by (simp add: controller_fields all_lines_def Send_ops_def)
qed

text \<open>
  C7, amended. Whenever \<open>Listen pad\<close> returns, one of two things has happened. Either
  no device acknowledged Attention: the status is NoDevice, the result is false and no
  byte was transmitted. Or the status is not NoDevice, and between the assertion and the
  release of Attention exactly one byte was sent, \<open>0x20 OR pad\<close>; nothing follows the
  release of Attention but the delay, so there is no Turnaround.
\<close>

theorem Listen_one_byte:
  assumes "Listen pad s = Some (r, s')"
  shows "(m_status s' = STATUS_NO_DEVICE \<and> \<not> r \<and>
          trace s' = trace s @ [LineRelease (dioBit s), LineAssert (atnBit s),
                                LineAssert (clkBit s), LineRelease (all_lines s)]) \<or>
         (m_status s' \<noteq> STATUS_NO_DEVICE \<and>
          trace s' = trace s @ [LineRelease (dioBit s), LineAssert (atnBit s),
                                LineAssert (clkBit s)] @
                     Send_ops (clkBit s) (dioBit s) (0x20 OR pad) False @
                     [DelayUs 20, LineRelease (atnBit s), DelayUs 30])"
proof -
  from assms have c: "Command (0x20 OR pad) s = Some (r, s')"
    by (simp add: Listen_def CMD_LISTEN_def)
  from Command_result(2,3) [OF c] show ?thesis
    by auto
qed

text \<open>A device that answers each wait at the first poll.\<close>

theorem Listen_one_byte_witness:
  "\<exists>s'. Listen 4 (controller (0 ## 0xFF ## sconst 0) (sconst 0)) = Some (True, s') \<and>
     m_status s' = STATUS_OK \<and>
     trace s' = [LineRelease 0x7C, LineRelease 0x20, LineAssert 0x08, LineAssert 0x10] @
                Send_ops 0x10 0x20 0x24 False @ [DelayUs 20, LineRelease 0x08, DelayUs 30]"
proof -
  let ?T = "controller (0 ## 0xFF ## sconst 0) (sconst 0)"
  have p: "pind_in ?T = 0 ## 0xFF ## 0 ## sconst 0"
    by (simp add: controller_fields) (subst siterate.code, simp)
  have "\<exists>s'. Command (CMD_LISTEN OR 4) ?T = Some (True, s') \<and> m_status s' = STATUS_OK \<and>
      pind_in s' = sconst 0"
    by (rule Command_prompt [OF p]) (simp_all add: controller_fields)
  then obtain s' where l: "Listen 4 ?T = Some (True, s')" and ok: "m_status s' = STATUS_OK"
    unfolding Listen_def by (elim exE conjE)
  from Listen_one_byte [OF l] ok
  have "trace s' = trace ?T @ [LineRelease (dioBit ?T), LineAssert (atnBit ?T),
                                LineAssert (clkBit ?T)] @
                     Send_ops (clkBit ?T) (dioBit ?T) (0x20 OR 4) False @
                     [DelayUs 20, LineRelease (atnBit ?T), DelayUs 30]"
    by simp
  then show ?thesis
    using l ok by (intro exI [of _ s']) (simp add: controller_fields)
qed






section \<open>Bit transmission against bit reception (C2)\<close>

lemma bit_0x80: "bit (0x80 :: 8 word) j \<longleftrightarrow> j = 7"
proof -
  have "(0x80 :: 8 word) = push_bit 7 1" by simp
  then show ?thesis by (simp only: bit_simps) auto
qed

lemma bit_128_int: "bit (128 :: int) j \<longleftrightarrow> j = 7"
proof -
  have "(128 :: int) = push_bit 7 1" by simp
  then show ?thesis by (simp only: bit_simps) auto
qed

lemma rx_step_invariant:
  assumes "n < 8"
  shows "rx_step (push_bit (8 - n) (take_bit n d)) (bit d n) = push_bit (7 - n) (take_bit (Suc n) d)"
proof (rule bit_word_eqI)
  fix j assume "j < LENGTH(8)"
  then have j: "j < 8" by simp
  show "bit (rx_step (push_bit (8 - n) (take_bit n d)) (bit d n)) j =
        bit (push_bit (7 - n) (take_bit (Suc n) d)) j"
  proof (cases "j = 7")
    case True
    then show ?thesis
      using assms by (simp add: rx_step_def bit_simps bit_0x80 bit_128_int)
  next
    case False
    then have "j < 7" using j by simp
    then show ?thesis
      using assms False by (auto simp: rx_step_def bit_simps bit_0x80 bit_128_int)
  qed
qed

lemma rx_fold:
  assumes "n \<le> 8"
  shows "foldl rx_step (push_bit (8 - n) (take_bit n d)) (map (bit d) [n..<8]) = d"
  using assms
proof (induction "8 - n" arbitrary: n)
  case 0
  then show ?case by (simp add: take_bit_word_eq_self)
next
  case (Suc k)
  then have n: "n < 8" and k: "k = 8 - Suc n" by simp_all
  have u: "[n..<8] = n # [Suc n..<8]"
    using n by (simp add: upt_conv_Cons)
  have "7 - n = 8 - Suc n" by simp
  then show ?case
    unfolding u using Suc.hyps(1) [OF k] n by (simp add: rx_step_invariant)
qed

lemma rx_roundtrip: "foldl rx_step 0 (map (bit d) [0..<8]) = d"
  using rx_fold [of 0 d] by simp

text \<open>The sender's side.\<close>

lemma pin_level_Assert: "pin_level (Assert p s) = pin_level s AND NOT p"
  by (auto simp: pin_level_def bit_eq_iff bit_simps)

lemma pin_level_Release: "pin_level (Release p s) = pin_level s OR p"
  by (auto simp: pin_level_def bit_eq_iff bit_simps)

lemma pin_level_delay [simp]: "pin_level (delayMicroseconds n s) = pin_level s"
  by (simp add: pin_level_def)

lemma level_facts:
  fixes clk dio l :: "8 word"
  assumes "clk AND dio = 0"
  shows "(l AND NOT clk) AND clk = 0"
    and "((l AND NOT clk) OR dio) AND clk = 0"
    and "((l AND NOT clk) AND NOT dio) AND clk = 0"
    and "(l OR clk) AND clk = clk"
    and "(((l AND NOT clk) OR dio) OR clk) AND dio = dio"
    and "(((l AND NOT clk) AND NOT dio) OR clk) AND dio = 0"
  using assms by (auto simp: bit_eq_iff bit_simps)

lemma line_levels_bits:
  assumes "clk AND dio = 0" "clk \<noteq> 0" "dio \<noteq> 0"
  shows "bit_wave clk dio (map (bit d) [n..<8])
     (line_levels s (concat (map (\<lambda>i. bit_ops clk dio (bit d i)) [n..<8]) @
        [LineRelease dio, LineAssert clk]))"
proof (induction "8 - n" arbitrary: n s)
  case 0
  then show ?case by simp
next
  case (Suc k)
  then have n: "n < 8" and k: "k = 8 - Suc n" by simp_all
  have u: "[n..<8] = n # [Suc n..<8]"
    using n by (simp add: upt_conv_Cons)
  show ?case
    unfolding u using Suc.hyps(1) [OF k] assms
    by (simp add: bit_ops_def pin_level_Assert pin_level_Release level_facts)
qed

lemma WaitAssertion_skip:
  assumes "\<forall>v\<in>set pre. v AND pins \<noteq> 0" "lo AND pins = 0" "pind_in s = pre @- (lo ## rest)"
  shows "WaitAssertion pins s =
     Some (s\<lparr>pind_in := rest, pind_reads := pind_reads s + Suc (length pre)\<rparr>)"
  using assms
proof (induction pre arbitrary: s)
  case Nil
  then show ?case
    by (subst WaitAssertion.simps) (simp add: isReleased_def read_PIND_def)
next
  case (Cons v pre)
  let ?s1 = "snd (read_PIND s)"
  have "WaitAssertion pins s = WaitAssertion pins ?s1"
    using Cons.prems by (subst WaitAssertion.simps) (simp add: isReleased_def split_beta)
  also have "\<dots> = Some (?s1\<lparr>pind_in := rest, pind_reads := pind_reads ?s1 + Suc (length pre)\<rparr>)"
    using Cons.prems by (intro Cons.IH) simp_all
  finally show ?case by (simp add: read_PIND_def)
qed

lemma WaitRelease_skip:
  assumes "\<forall>v\<in>set pre. v AND pins = 0" "hi AND pins \<noteq> 0" "pind_in s = pre @- (hi ## rest)"
  shows "WaitRelease pins s =
     Some (s\<lparr>pind_in := rest, pind_reads := pind_reads s + Suc (length pre)\<rparr>)"
  using assms
proof (induction pre arbitrary: s)
  case Nil
  then show ?case
    by (subst WaitRelease.simps) (simp add: isAsserted_def read_PIND_def)
next
  case (Cons v pre)
  let ?s1 = "snd (read_PIND s)"
  have "WaitRelease pins s = WaitRelease pins ?s1"
    using Cons.prems by (subst WaitRelease.simps) (simp add: isAsserted_def split_beta)
  also have "\<dots> = Some (?s1\<lparr>pind_in := rest, pind_reads := pind_reads ?s1 + Suc (length pre)\<rparr>)"
    using Cons.prems by (intro Cons.IH) simp_all
  finally show ?case by (simp add: read_PIND_def)
qed

lemma replicate_pos: "0 < n \<Longrightarrow> replicate n x = x # replicate (n - 1) x"
  by (cases n) simp_all

lemma GetBits_loop_wave:
  assumes "bit_wave clk dio bs w" "0 < rate" "clkBit r = clk" "dioBit r = dio"
    "\<forall>v\<in>set pre. v AND clk \<noteq> 0" "pind_in r = pre @- samples rate w @- rest"
    "n + length bs = 8"
  shows "\<exists>r'. GetBits_loop n data r = Some (foldl rx_step data bs, r')"
  using assms
proof (induction bs arbitrary: w r pre n data)
  case Nil
  then have "n = 8" by simp
  then show ?case by (simp add: GetBits_loop.simps [of 8])
next
  case (Cons b bs)
  from Cons.prems(1) obtain v1 n1 v2 n2 v3 n3 w' where
    w: "w = (v1, n1) # (v2, n2) # (v3, n3) # w'" and
    v: "v1 AND clk = 0" "v2 AND clk = 0" "v3 AND clk \<noteq> 0" "(v3 AND dio \<noteq> 0) = b" and
    c: "0 < n1" "2 \<le> n3" and w': "bit_wave clk dio bs w'"
    by (cases "(clk, dio, b # bs, w)" rule: bit_wave.cases) auto
  have n: "n < 8" using Cons.prems(7) by simp
  define lows where "lows = replicate (rate * n1 - 1) v1 @ replicate (rate * n2) v2"
  define highs where "highs = replicate (rate * n3 - 2) v3"
  have p1: "0 < rate * n1" and p3: "2 \<le> rate * n3"
    using c Cons.prems(2) by (simp_all add: Suc_le_eq mult_le_mono [of 1 rate 2 n3, simplified])
  have r3: "replicate (rate * n3) v3 = v3 # v3 # highs"
  proof -
    obtain m where "rate * n3 = Suc (Suc m)"
      using p3 by (metis Suc_le_D numeral_2_eq_2 Suc_le_mono)
    then show ?thesis by (simp add: highs_def)
  qed
  have tape: "pind_in r = pre @- (v1 ## (lows @- (v3 ## v3 ## highs @- samples rate w' @- rest)))"
    using Cons.prems(6) p1 by (simp add: w samples_def replicate_pos [of "rate * n1"] r3 lows_def)
  define r1 where "r1 = r\<lparr>pind_in := lows @- (v3 ## v3 ## highs @- samples rate w' @- rest),
                            pind_reads := pind_reads r + Suc (length pre)\<rparr>"
  have a: "WaitAssertion (clkBit r) r = Some r1"
    unfolding r1_def using Cons.prems(3,5) v(1) tape by (intro WaitAssertion_skip) simp_all
  define r2 where "r2 = r1\<lparr>pind_in := v3 ## highs @- samples rate w' @- rest,
                            pind_reads := pind_reads r1 + Suc (length lows)\<rparr>"
  have b: "WaitRelease (clkBit r1) r1 = Some r2"
    unfolding r2_def using Cons.prems(3) v(1,2,3)
    by (intro WaitRelease_skip) (auto simp: r1_def lows_def)
  define r3 where "r3 = snd (read_PIND r2)"
  have i: "isReleased (dioBit r2) r2 = (b, r3)"
    using v(4) Cons.prems(4) by (simp add: isReleased_def r3_def r2_def r1_def read_PIND_def)
  have step: "GetBits_loop n data r = GetBits_loop (Suc n) (rx_step data b) r3"
    using n a b i by (subst GetBits_loop.simps) (simp add: Let_def rx_step_def)
  have "\<exists>r'. GetBits_loop (Suc n) (rx_step data b) r3 = Some (foldl rx_step (rx_step data b) bs, r')"
  proof (rule Cons.IH [OF w' Cons.prems(2)])
    show "clkBit r3 = clk" "dioBit r3 = dio"
      using Cons.prems(3,4) by (simp_all add: r3_def r2_def r1_def)
    show "\<forall>v\<in>set highs. v AND clk \<noteq> 0"
      using v(3) by (simp add: highs_def)
    show "pind_in r3 = highs @- samples rate w' @- rest"
      by (simp add: r3_def r2_def)
    show "Suc n + length bs = 8"
      using Cons.prems(7) by simp
  qed
  then show ?case
    unfolding step by simp
qed

text \<open>
  C2. The controller \<open>s\<close> runs \<open>SendBits d\<close>; a partner \<open>r\<close> on the same Clock and
  Data lines (two different lines) runs \<open>GetBits\<close> and reads from its pins what the
  controller drives, polling at least once per microsecond, whatever the bus does after
  the byte (\<open>rest\<close>). Then \<open>GetBits\<close> returns, and the byte it has assembled is
  \<open>d\<close>, for every byte \<open>d\<close>. The transmitter sends bit 0 first (\<open>SendBits_trace\<close>
  and \<open>byte_ops\<close>); the receiver shifts right and sets bit 7 (\<open>rx_step\<close>).
\<close>

theorem SendBits_GetBits_roundtrip:
  assumes "clkBit s AND dioBit s = 0" "clkBit s \<noteq> 0" "dioBit s \<noteq> 0"
    and "0 < rate"
    and "clkBit r = clkBit s" "dioBit r = dioBit s"
    and "pind_in r = SendBits_seen rate d s @- rest"
  shows "\<exists>r'. GetBits r = Some (d, r')"
proof -
  have ops: "drop (length (trace s)) (trace (SendBits d s)) =
      concat (map (\<lambda>i. bit_ops (clkBit s) (dioBit s) (bit d i)) [0..<8]) @
        [LineRelease (dioBit s), LineAssert (clkBit s)]"
    by (simp add: byte_ops_def)
  have wave: "bit_wave (clkBit s) (dioBit s) (map (bit d) [0..<8])
      (line_levels s (drop (length (trace s)) (trace (SendBits d s))))"
    unfolding ops using assms(1-3) by (rule line_levels_bits)
  have tape: "pind_in r = [] @-
      samples rate (line_levels s (drop (length (trace s)) (trace (SendBits d s)))) @- rest"
    using assms(7) by (simp add: SendBits_seen_def)
  have "\<exists>r'. GetBits_loop 0 0 r = Some (foldl rx_step 0 (map (bit d) [0..<8]), r')"
    using wave assms(4-6) _ tape by (rule GetBits_loop_wave) simp_all
  then show ?thesis
    by (simp add: GetBits_def rx_roundtrip)
qed

text \<open>The byte \<open>0xA5\<close>, one poll per microsecond.\<close>

theorem SendBits_GetBits_roundtrip_witness:
  "\<exists>r'. GetBits (controller
        (SendBits_seen 1 0xA5 (controller (sconst 0xFF) (sconst 0)) @- sconst 0xFF) (sconst 0)) =
      Some (0xA5, r')"
  by (rule SendBits_GetBits_roundtrip [where rate = 1 and s = "controller (sconst 0xFF) (sconst 0)"
        and rest = "sconst 0xFF"])
     (simp_all add: controller_fields)

end
